theory Spec2Isabelle
  imports Main "HOL-Library.Multiset" "HOL-Library.Sublist"
begin

section \<open>The annotation data model of \<^verbatim>\<open>src/data.js\<close>\<close>

text \<open>
  The module builds a graph of JavaScript objects (morphemes, words, trees, edges,
  entities, coreference groups, sentences) that point at one another and are updated in
  place while the graph is built. The embedding keeps every mutable object in an explicit
  store and passes the store through each constructor and setter; an exception is a value
  of the result type. Pure queries read the store and return a value.
\<close>

subsection \<open>JavaScript values, exceptions and the console\<close>

text \<open>
  A slot of the program holds \<^verbatim>\<open>undefined\<close>, \<^verbatim>\<open>null\<close> or a value.
  \<^verbatim>\<open>isDefined(value)\<close> is
  \<^verbatim>\<open>typeof value !== 'undefined' && value !== null\<close>.
\<close>

datatype 'a jsval = Undefined | Null | Val 'a

fun isDefined :: "'a jsval \<Rightarrow> bool" where
  "isDefined Undefined = False"
| "isDefined Null = False"
| "isDefined (Val v) = True"

text \<open>\<^verbatim>\<open>getOrUndefined(value)\<close>: \<^verbatim>\<open>isDefined(value) ? value : undefined\<close>.\<close>

definition getOrUndefined :: "'a jsval \<Rightarrow> 'a jsval" where
  "getOrUndefined v = (if isDefined v then v else Undefined)"

text \<open>
  \<^verbatim>\<open>typeof\<close> of a slot holding an object: \<^verbatim>\<open>'undefined'\<close> for
  \<^verbatim>\<open>undefined\<close>, and \<^verbatim>\<open>'object'\<close> both for \<^verbatim>\<open>null\<close> and for every
  object, whatever its class.
\<close>

fun typeof :: "'a jsval \<Rightarrow> string" where
  "typeof Undefined = ''undefined''"
| "typeof Null = ''object''"
| "typeof (Val v) = ''object''"

text \<open>
  The exceptions of the module: the \<^verbatim>\<open>AssertionError\<close> of a failed assertion, the
  \<^verbatim>\<open>TypeError\<close> of the language (a property of \<^verbatim>\<open>undefined\<close> or
  \<^verbatim>\<open>null\<close> is read or written, \<^verbatim>\<open>undefined\<close> is spread), and the plain
  \<^verbatim>\<open>Error\<close> that the unsupported array operations throw.
\<close>

datatype error = AssertionError | TypeError | Error

text \<open>
  \<^verbatim>\<open>console.assert\<close> belongs to the host, not to the module, and hosts differ.
  On Node.js before version 10 a failed \<^verbatim>\<open>console.assert\<close> raises an
  \<^verbatim>\<open>AssertionError\<close>. From Node.js 10 on, and in the WHATWG console of browsers, it
  prints the message and returns. \<^verbatim>\<open>package.json\<close> admits both
  (\<^verbatim>\<open>"node": ">=8.0.0"\<close>), so the console is a parameter of every function that
  asserts. The printed message is not modelled.
\<close>

datatype console = Throwing | Logging

fun console_assert :: "console \<Rightarrow> bool \<Rightarrow> error option" where
  "console_assert c True = None"
| "console_assert Throwing False = Some AssertionError"
| "console_assert Logging False = None"

subsection \<open>One-time-write slots\<close>

text \<open>
  \<^verbatim>\<open>writeonlyonce(target, ...properties)\<close> gives each property a hidden variable
  \<^verbatim>\<open>value\<close>, initially \<^verbatim>\<open>undefined\<close>, a getter that returns it, and the setter
  \<^verbatim>\<open>
  (newValue) => {
      console.assert(!isDefined(value), ...);
      value = newValue;
  }\<close>
  The setter is modelled on the content of the hidden variable: it returns the new
  content, or the exception raised before the assignment was reached (the variable then
  keeps its content).
\<close>

definition writeonlyonce_set :: "console \<Rightarrow> 'a jsval \<Rightarrow> 'a jsval \<Rightarrow> error + 'a jsval" where
  "writeonlyonce_set c value newValue =
     (case console_assert c (\<not> isDefined value) of
        Some e \<Rightarrow> Inl e
      | None \<Rightarrow> Inr newValue)"

subsection \<open>The store\<close>

text \<open>
  An object is named by its position in the table of its class. The fields are the
  properties the module reads or writes; the \<^verbatim>\<open>reference\<close> to the foreign (Java)
  twin of an object is left out, as the bridge to it is not part of the module's files.
\<close>

type_synonym ref = nat

record morpheme =
  m_surface :: string
  m_tag :: string
  m_originalTag :: "string jsval"
  m_id :: "nat jsval"
  m_word :: "ref jsval"
  m_entities :: "ref list"

record word =
  w_items :: "ref list"
  w_surface :: "string jsval"
  w_id :: "nat jsval"
  w_phrase :: "ref jsval"
  w_governorEdge :: "ref jsval"
  w_dependentEdges :: "ref list"
  w_argumentRoles :: "ref list"
  w_predicateRoles :: "ref list"

record entity =
  en_items :: "ref jsval list"
  en_surface :: "string jsval"
  en_label :: "string jsval"
  en_fineLabel :: "string jsval"
  en_originalLabel :: "string jsval"
  en_corefGroup :: "ref jsval"

record coref_group =
  cg_items :: "ref jsval list"

datatype edge_class = DAGEdgeC | DepEdgeC | RoleEdgeC

record edge =
  e_class :: edge_class
  e_src :: "ref jsval"
  e_dest :: "ref jsval"
  e_label :: "string jsval"
  e_type :: "string jsval"
  e_modifiers :: "ref list jsval"
  e_originalLabel :: "string jsval"

record sentence =
  s_items :: "ref list"
  s_syntaxTree :: "ref jsval"
  s_entities :: "ref list"

record heap =
  morphemes :: "morpheme list"
  words :: "word list"
  entities :: "entity list"
  corefGroups :: "coref_group list"
  edges :: "edge list"
  sentences :: "sentence list"

text \<open>
  A call either returns a value or raises; both leave a store behind, since what a
  constructor wrote before it raised stays written.
\<close>

datatype 'a result = Return 'a heap | Raise error heap

fun returns :: "'a result \<Rightarrow> bool" where
  "returns (Return v h) = True"
| "returns (Raise e h) = False"

fun raised :: "'a result \<Rightarrow> error option" where
  "raised (Return v h) = None"
| "raised (Raise e h) = Some e"

fun heap_of :: "'a result \<Rightarrow> heap" where
  "heap_of (Return v h) = h"
| "heap_of (Raise e h) = h"

subsection \<open>Morphemes and the tag vocabulary\<close>

text \<open>
  \<^verbatim>\<open>new Morpheme(surface, tag, originalTag)\<close>: the fields are stored, \<^verbatim>\<open>id\<close> and
  \<^verbatim>\<open>word\<close> become one-time-write slots that hold \<^verbatim>\<open>undefined\<close>, and
  \<^verbatim>\<open>entities\<close> starts as the empty list. The constructor asserts nothing. It also
  obtains the foreign twin of the morpheme and copies its word sense, which needs the
  bridge and is not modelled.
\<close>

definition Morpheme_new :: "string \<Rightarrow> string \<Rightarrow> string jsval \<Rightarrow> heap \<Rightarrow> ref result" where
  "Morpheme_new surface tag originalTag h =
     Return (length (morphemes h))
       (h\<lparr>morphemes := morphemes h @
           [\<lparr>m_surface = surface, m_tag = tag, m_originalTag = originalTag,
             m_id = Undefined, m_word = Undefined, m_entities = []\<rparr>]\<rparr>)"

text \<open>
  The getter \<^verbatim>\<open>tag\<close> resolves the stored name against the part-of-speech vocabulary
  \<^verbatim>\<open>POS\<close> of \<^verbatim>\<open>types.js\<close>, which is not among the module's files. Its category
  tests are parameters of the model.
\<close>

record pos_vocabulary =
  pos_isNoun :: "string \<Rightarrow> bool"
  pos_isPredicate :: "string \<Rightarrow> bool"

text \<open>
  Modelled from the spec: \<^verbatim>\<open>startsWith\<close> and \<^verbatim>\<open>equals\<close> of a \<^verbatim>\<open>POS\<close> value are
  missing with \<^verbatim>\<open>types.js\<close>. The spec has \<^verbatim>\<open>hasTag\<close> and \<^verbatim>\<open>hasTagOneOf\<close> test
  "whether the resolved tag string starts with a given prefix (case-sensitive)", and has
  the verbs query test that the "tag equals XSV".
\<close>

definition pos_startsWith :: "string \<Rightarrow> string \<Rightarrow> bool" where
  "pos_startsWith tag partialTag = prefix partialTag tag"

definition pos_equals :: "string \<Rightarrow> string \<Rightarrow> bool" where
  "pos_equals tag other = (tag = other)"

definition isNoun :: "pos_vocabulary \<Rightarrow> morpheme \<Rightarrow> bool" where
  "isNoun V m = pos_isNoun V (m_tag m)"

definition isPredicate :: "pos_vocabulary \<Rightarrow> morpheme \<Rightarrow> bool" where
  "isPredicate V m = pos_isPredicate V (m_tag m)"

text \<open>\<^verbatim>\<open>hasTagOneOf(...tags)\<close>: \<^verbatim>\<open>tags.some((t) => this.tag.startsWith(t))\<close>.\<close>

definition hasTagOneOf :: "morpheme \<Rightarrow> string list \<Rightarrow> bool" where
  "hasTagOneOf m tags = list_ex (\<lambda>t. pos_startsWith (m_tag m) t) tags"

subsection \<open>Lexical-class queries of a sentence\<close>

text \<open>
  \<^verbatim>\<open>_.findIndex(array, predicate)\<close> of underscore walks the indices upwards and returns
  the first whose element passes, \<^verbatim>\<open>_.findLastIndex\<close> walks them downwards from
  \<^verbatim>\<open>length - 1\<close>; both return \<^verbatim>\<open>-1\<close> when no element passes.
\<close>

fun findIndex_from :: "nat \<Rightarrow> ('a \<Rightarrow> bool) \<Rightarrow> 'a list \<Rightarrow> int" where
  "findIndex_from i p [] = - 1"
| "findIndex_from i p (x # xs) = (if p x then int i else findIndex_from (Suc i) p xs)"

definition findIndex :: "'a list \<Rightarrow> ('a \<Rightarrow> bool) \<Rightarrow> int" where
  "findIndex xs p = findIndex_from 0 p xs"

primrec findLastIndex_below :: "nat \<Rightarrow> 'a list \<Rightarrow> ('a \<Rightarrow> bool) \<Rightarrow> int" where
  "findLastIndex_below 0 xs p = - 1"
| "findLastIndex_below (Suc n) xs p = (if p (xs ! n) then int n else findLastIndex_below n xs p)"

definition findLastIndex :: "'a list \<Rightarrow> ('a \<Rightarrow> bool) \<Rightarrow> int" where
  "findLastIndex xs p = findLastIndex_below (length xs) xs p"

text \<open>The morpheme objects a word holds, in order: what iterating the word visits.\<close>

definition Word_morphemes :: "heap \<Rightarrow> ref \<Rightarrow> morpheme list" where
  "Word_morphemes h w = map (\<lambda>r. morphemes h ! r) (w_items (words h ! w))"

text \<open>
  The three getters share one loop,
  \<^verbatim>\<open>
  let result = [];
  for (const word of this) {
      const inclusion = _.findIndex(word, ...);
      const exclusion = _.findLastIndex(word, ...);
      if (inclusion !== -1 && inclusion > exclusion) { result.push(word); }
  }
  return result;\<close>
  and differ in the two predicates.
\<close>

fun lexical_loop ::
  "(morpheme \<Rightarrow> bool) \<Rightarrow> (morpheme \<Rightarrow> bool) \<Rightarrow> heap \<Rightarrow> ref list \<Rightarrow> ref list \<Rightarrow> ref list" where
  "lexical_loop incl excl h [] result = result"
| "lexical_loop incl excl h (word # rest) result =
     (let inclusion = findIndex (Word_morphemes h word) incl;
          exclusion = findLastIndex (Word_morphemes h word) excl
      in if inclusion \<noteq> - 1 \<and> inclusion > exclusion
         then lexical_loop incl excl h rest (result @ [word])
         else lexical_loop incl excl h rest result)"

definition nouns :: "pos_vocabulary \<Rightarrow> heap \<Rightarrow> sentence \<Rightarrow> ref list" where
  "nouns V h this =
     lexical_loop (\<lambda>m. isNoun V m \<or> hasTagOneOf m [''ETN'', ''XSN''])
                  (\<lambda>m. hasTagOneOf m [''XSV'', ''XSA'', ''XSM''])
                  h (s_items this) []"

definition verbs :: "pos_vocabulary \<Rightarrow> heap \<Rightarrow> sentence \<Rightarrow> ref list" where
  "verbs V h this =
     lexical_loop (\<lambda>m. isPredicate V m \<or> pos_equals (m_tag m) ''XSV'')
                  (\<lambda>m. hasTagOneOf m [''ETN'', ''ETM'', ''XSN'', ''XSA'', ''XSM''])
                  h (s_items this) []"

definition modifiers :: "pos_vocabulary \<Rightarrow> heap \<Rightarrow> sentence \<Rightarrow> ref list" where
  "modifiers V h this =
     lexical_loop (\<lambda>m. isPredicate V m \<or> hasTagOneOf m [''ETM'', ''XSA'', ''XSM''])
                  (\<lambda>m. hasTagOneOf m [''ETN'', ''XSN'', ''XSV''])
                  h (s_items this) []"

text \<open>
  The rule in the words of the spec, over the morphemes of one word: a first position
  passing the inclusion test exists, and every position passing the exclusion test lies
  strictly below it.
\<close>

definition first_inclusion_after_last_exclusion ::
  "('a \<Rightarrow> bool) \<Rightarrow> ('a \<Rightarrow> bool) \<Rightarrow> 'a list \<Rightarrow> bool" where
  "first_inclusion_after_last_exclusion incl excl ms =
     (\<exists>i < length ms. incl (ms ! i) \<and> (\<forall>k < i. \<not> incl (ms ! k)) \<and>
        (\<forall>j < length ms. excl (ms ! j) \<longrightarrow> j < i))"

subsection \<open>Trees and their terminals\<close>

text \<open>
  A \<^verbatim>\<open>Tree\<close> is the array of its child trees together with a label and a terminal
  word. The constructor is given children that were built before the node, so a tree
  built by the constructors is a finite term; the terminal is a slot holding a word of
  the store.
\<close>

datatype tree = Tree (label: string) (terminal: "ref jsval") (children: "tree list")

text \<open>
  The comparator \<^verbatim>\<open>(x, y) => x.id - y.id\<close>. Reading \<^verbatim>\<open>id\<close> needs an object:
  on \<^verbatim>\<open>null\<close> it raises a \<^verbatim>\<open>TypeError\<close>. The difference of two numbers is a number;
  \<^verbatim>\<open>undefined\<close> converts to \<^verbatim>\<open>NaN\<close>, \<^verbatim>\<open>null\<close> to \<^verbatim>\<open>0\<close>, and a
  difference with \<^verbatim>\<open>NaN\<close> is \<^verbatim>\<open>NaN\<close> (here \<open>None\<close>).
\<close>

fun is_word :: "heap \<Rightarrow> ref jsval \<Rightarrow> bool" where
  "is_word h (Val r) = (r < length (words h))"
| "is_word h Undefined = False"
| "is_word h Null = False"

fun id_of :: "heap \<Rightarrow> ref jsval \<Rightarrow> nat jsval" where
  "id_of h (Val r) = w_id (words h ! r)"
| "id_of h Undefined = Undefined"
| "id_of h Null = Undefined"

fun toNumber :: "nat jsval \<Rightarrow> int option" where
  "toNumber Undefined = None"
| "toNumber Null = Some 0"
| "toNumber (Val n) = Some (int n)"

definition compare_id :: "heap \<Rightarrow> ref jsval \<Rightarrow> ref jsval \<Rightarrow> int option" where
  "compare_id h x y =
     (case (toNumber (id_of h x), toNumber (id_of h y)) of
        (Some a, Some b) \<Rightarrow> Some (a - b)
      | _ \<Rightarrow> None)"

text \<open>
  \<^verbatim>\<open>Array.prototype.sort(compareFn)\<close> on a plain array. The language leaves the
  algorithm to the engine; the model sorts by insertion, placing an element after those
  the comparator puts before it (a result of \<^verbatim>\<open>NaN\<close> counts as \<^verbatim>\<open>0\<close>). An array
  of fewer than two elements is returned without a call of the comparator; otherwise
  every element is compared at least once, so an element that is no object
  (\<^verbatim>\<open>null\<close>, or a position outside the store) makes the call raise.
\<close>

fun positive :: "int option \<Rightarrow> bool" where
  "positive None = False"
| "positive (Some v) = (0 < v)"

fun sort_insert :: "('a \<Rightarrow> 'a \<Rightarrow> int option) \<Rightarrow> 'a \<Rightarrow> 'a list \<Rightarrow> 'a list" where
  "sort_insert cmp x [] = [x]"
| "sort_insert cmp x (y # ys) =
     (if positive (cmp x y) then y # sort_insert cmp x ys else x # y # ys)"

definition Array_sort_by_id :: "heap \<Rightarrow> ref jsval list \<Rightarrow> error + ref jsval list" where
  "Array_sort_by_id h xs =
     (if length xs < 2 then Inr xs
      else if list_all (is_word h) xs then Inr (foldr (sort_insert (compare_id h)) xs [])
      else Inl TypeError)"

text \<open>
  \<^verbatim>\<open>
  getTerminals() {
      let leaves = this.reduce((acc, child) => acc.concat(child.getTerminals()), []);
      if (this.terminal !== undefined) { leaves.push(this.terminal); }
      return leaves.sort((x, y) => x.id - y.id);
  }\<close>
  \<open>getTerminals_reduce\<close> is the \<^verbatim>\<open>reduce\<close> over the children with its accumulator.
\<close>

fun getTerminals :: "heap \<Rightarrow> tree \<Rightarrow> error + ref jsval list"
  and getTerminals_reduce :: "heap \<Rightarrow> tree list \<Rightarrow> ref jsval list \<Rightarrow> error + ref jsval list" where
  "getTerminals h (Tree lbl term cs) =
     (case getTerminals_reduce h cs [] of
        Inl e \<Rightarrow> Inl e
      | Inr leaves \<Rightarrow>
          Array_sort_by_id h (if term \<noteq> Undefined then leaves @ [term] else leaves))"
| "getTerminals_reduce h [] acc = Inr acc"
| "getTerminals_reduce h (child # rest) acc =
     (case getTerminals h child of
        Inl e \<Rightarrow> Inl e
      | Inr ts \<Rightarrow> getTerminals_reduce h rest (acc @ ts))"

text \<open>
  The terminals of a subtree in the words of the spec: those of each child, plus the
  node's own terminal word when present. A terminal is absent when it is
  \<^verbatim>\<open>undefined\<close> or \<^verbatim>\<open>null\<close>: that is \<^verbatim>\<open>isDefined\<close>, which \<^verbatim>\<open>Tree.equals\<close>
  applies to the terminal, and the getter documents its value as "a word or null".
\<close>

fun subtree_terminals :: "tree \<Rightarrow> ref jsval list" where
  "subtree_terminals (Tree lbl term cs) =
     concat (map subtree_terminals cs) @ (if isDefined term then [term] else [])"

text \<open>
  A word of the store whose position index has been assigned, and the position index
  of a word, read from the word itself.
\<close>

fun has_index :: "heap \<Rightarrow> ref jsval \<Rightarrow> bool" where
  "has_index h (Val r) = (r < length (words h) \<and> (\<exists>n. w_id (words h ! r) = Val n))"
| "has_index h Undefined = False"
| "has_index h Null = False"

fun position_index :: "heap \<Rightarrow> ref jsval \<Rightarrow> nat" where
  "position_index h (Val r) = (case w_id (words h ! r) of Val n \<Rightarrow> n | _ \<Rightarrow> 0)"
| "position_index h Undefined = 0"
| "position_index h Null = 0"

text \<open>
  A tree of a sentence: the terminal of every node is \<^verbatim>\<open>undefined\<close> or a word whose
  position index has been assigned.
\<close>

fun terminals_indexed :: "heap \<Rightarrow> tree \<Rightarrow> bool" where
  "terminals_indexed h (Tree lbl term cs) =
     ((term = Undefined \<or> has_index h term) \<and> (\<forall>c \<in> set cs. terminals_indexed h c))"

subsection \<open>Words\<close>

text \<open>
  Assignments to the one-time-write slots of a morpheme and of a word. The target is an
  object of the store; a position outside the store names no object, and the model
  raises the \<^verbatim>\<open>TypeError\<close> that writing a property of \<^verbatim>\<open>undefined\<close> raises.
\<close>

definition set_m_word :: "console \<Rightarrow> ref \<Rightarrow> ref jsval \<Rightarrow> heap \<Rightarrow> unit result" where
  "set_m_word c r newValue h =
     (if r < length (morphemes h) then
        (case writeonlyonce_set c (m_word (morphemes h ! r)) newValue of
           Inl e \<Rightarrow> Raise e h
         | Inr v \<Rightarrow> Return () (h\<lparr>morphemes := (morphemes h)[r := (morphemes h ! r)\<lparr>m_word := v\<rparr>]\<rparr>))
      else Raise TypeError h)"

definition set_m_id :: "console \<Rightarrow> ref \<Rightarrow> nat jsval \<Rightarrow> heap \<Rightarrow> unit result" where
  "set_m_id c r newValue h =
     (if r < length (morphemes h) then
        (case writeonlyonce_set c (m_id (morphemes h ! r)) newValue of
           Inl e \<Rightarrow> Raise e h
         | Inr v \<Rightarrow> Return () (h\<lparr>morphemes := (morphemes h)[r := (morphemes h ! r)\<lparr>m_id := v\<rparr>]\<rparr>))
      else Raise TypeError h)"

definition set_w_id :: "console \<Rightarrow> ref \<Rightarrow> nat jsval \<Rightarrow> heap \<Rightarrow> unit result" where
  "set_w_id c r newValue h =
     (if r < length (words h) then
        (case writeonlyonce_set c (w_id (words h ! r)) newValue of
           Inl e \<Rightarrow> Raise e h
         | Inr v \<Rightarrow> Return () (h\<lparr>words := (words h)[r := (words h ! r)\<lparr>w_id := v\<rparr>]\<rparr>))
      else Raise TypeError h)"

definition set_w_phrase :: "console \<Rightarrow> ref \<Rightarrow> ref jsval \<Rightarrow> heap \<Rightarrow> unit result" where
  "set_w_phrase c r newValue h =
     (if r < length (words h) then
        (case writeonlyonce_set c (w_phrase (words h ! r)) newValue of
           Inl e \<Rightarrow> Raise e h
         | Inr v \<Rightarrow> Return () (h\<lparr>words := (words h)[r := (words h ! r)\<lparr>w_phrase := v\<rparr>]\<rparr>))
      else Raise TypeError h)"

definition set_w_governorEdge :: "console \<Rightarrow> ref \<Rightarrow> ref jsval \<Rightarrow> heap \<Rightarrow> unit result" where
  "set_w_governorEdge c r newValue h =
     (if r < length (words h) then
        (case writeonlyonce_set c (w_governorEdge (words h ! r)) newValue of
           Inl e \<Rightarrow> Raise e h
         | Inr v \<Rightarrow> Return () (h\<lparr>words := (words h)[r := (words h ! r)\<lparr>w_governorEdge := v\<rparr>]\<rparr>))
      else Raise TypeError h)"

text \<open>
  \<^verbatim>\<open>
  constructor(surface, morphemes, reference = undefined) {
      console.assert(isDefined(surface) && isDefined(morphemes) && morphemes.length > 0, ...);
      super(morphemes);
      writeonlyonce(this, 'id', 'phrase', 'governorEdge');
      this._surface = surface;
      this.reference = reference;
      for (const [i, morph] of this.entries()) {
          morph.word = this;
          morph.id = i;
      }
  }\<close>
  \<^verbatim>\<open>super(morphemes)\<close> runs \<^verbatim>\<open>super(...items)\<close> of \<^verbatim>\<open>ImmutableArray\<close>, which
  raises a \<^verbatim>\<open>TypeError\<close> when \<^verbatim>\<open>items\<close> is \<^verbatim>\<open>undefined\<close> or \<^verbatim>\<open>null\<close>.
  \<open>Word_link\<close> is the loop, with the index \<open>i\<close> of the next entry.
\<close>

fun Word_link :: "console \<Rightarrow> ref \<Rightarrow> nat \<Rightarrow> ref list \<Rightarrow> heap \<Rightarrow> ref result" where
  "Word_link c this i [] h = Return this h"
| "Word_link c this i (morph # rest) h =
     (case set_m_word c morph (Val this) h of
        Raise e h1 \<Rightarrow> Raise e h1
      | Return u h1 \<Rightarrow>
          (case set_m_id c morph (Val i) h1 of
             Raise e h2 \<Rightarrow> Raise e h2
           | Return u h2 \<Rightarrow> Word_link c this (Suc i) rest h2))"

definition Word_new :: "console \<Rightarrow> string jsval \<Rightarrow> ref list jsval \<Rightarrow> heap \<Rightarrow> ref result" where
  "Word_new c surface morphs h =
     (case console_assert c
             (isDefined surface \<and> isDefined morphs \<and>
              (case morphs of Val ms \<Rightarrow> 0 < length ms | _ \<Rightarrow> False)) of
        Some e \<Rightarrow> Raise e h
      | None \<Rightarrow>
          (case morphs of
             Val ms \<Rightarrow>
               Word_link c (length (words h)) 0 ms
                 (h\<lparr>words := words h @
                     [\<lparr>w_items = ms, w_surface = surface, w_id = Undefined,
                       w_phrase = Undefined, w_governorEdge = Undefined,
                       w_dependentEdges = [], w_argumentRoles = [],
                       w_predicateRoles = []\<rparr>]\<rparr>)
           | _ \<Rightarrow> Raise TypeError h))"

subsection \<open>Sentences built from words\<close>

text \<open>
  The constructor called with a list of words and no foreign sentence:
  \<^verbatim>\<open>
  console.assert((isDefined(words) && Array.isArray(words)) || isDefined(reference), ...);
  ...
  super(words);
  writeonlyonce(this, 'syntaxTree');
  replaceableifempty(this, 'dependencies', 'roles', 'entities', 'corefGroups');
  ...
  for (const [i, word] of this.entries()) { word.id = i; }\<close>
\<close>

fun Sentence_link :: "console \<Rightarrow> ref \<Rightarrow> nat \<Rightarrow> ref list \<Rightarrow> heap \<Rightarrow> ref result" where
  "Sentence_link c this i [] h = Return this h"
| "Sentence_link c this i (wd # rest) h =
     (case set_w_id c wd (Val i) h of
        Raise e h1 \<Rightarrow> Raise e h1
      | Return u h1 \<Rightarrow> Sentence_link c this (Suc i) rest h1)"

definition Sentence_new :: "console \<Rightarrow> ref list jsval \<Rightarrow> heap \<Rightarrow> ref result" where
  "Sentence_new c wds h =
     (case console_assert c (isDefined wds) of
        Some e \<Rightarrow> Raise e h
      | None \<Rightarrow>
          (case wds of
             Val ws \<Rightarrow>
               Sentence_link c (length (sentences h)) 0 ws
                 (h\<lparr>sentences := sentences h @
                     [\<lparr>s_items = ws, s_syntaxTree = Undefined, s_entities = []\<rparr>]\<rparr>)
           | _ \<Rightarrow> Raise TypeError h))"

subsection \<open>Entities and coreference groups\<close>

text \<open>
  \<^verbatim>\<open>
  constructor(surface, label, fineLabel, morphemes, originalLabel = undefined) {
      console.assert(isDefined(surface) && isDefined(label) && isDefined(fineLabel)
                     && isDefined(morphemes), ...);
      super(morphemes);
      writeonlyonce(this, 'corefGroup');
      ...
      for (const morph of this) { morph.entities.push(this); }
  }\<close>
  The entries may be \<^verbatim>\<open>undefined\<close>: \<^verbatim>\<open>_getMorph\<close> passes what an index out of
  range reads.
\<close>

fun Entity_link :: "ref \<Rightarrow> ref jsval list \<Rightarrow> heap \<Rightarrow> ref result" where
  "Entity_link this [] h = Return this h"
| "Entity_link this (Val r # rest) h =
     (if r < length (morphemes h) then
        Entity_link this rest
          (h\<lparr>morphemes := (morphemes h)[r := (morphemes h ! r)
               \<lparr>m_entities := m_entities (morphemes h ! r) @ [this]\<rparr>]\<rparr>)
      else Raise TypeError h)"
| "Entity_link this (Undefined # rest) h = Raise TypeError h"
| "Entity_link this (Null # rest) h = Raise TypeError h"

definition Entity_new ::
  "console \<Rightarrow> string jsval \<Rightarrow> string jsval \<Rightarrow> string jsval \<Rightarrow> ref jsval list jsval \<Rightarrow>
   string jsval \<Rightarrow> heap \<Rightarrow> ref result" where
  "Entity_new c surface lbl fineLabel morphs originalLabel h =
     (case console_assert c
             (isDefined surface \<and> isDefined lbl \<and> isDefined fineLabel \<and> isDefined morphs) of
        Some e \<Rightarrow> Raise e h
      | None \<Rightarrow>
          (case morphs of
             Val ms \<Rightarrow>
               Entity_link (length (entities h)) ms
                 (h\<lparr>entities := entities h @
                     [\<lparr>en_items = ms, en_surface = surface, en_label = lbl,
                       en_fineLabel = fineLabel, en_originalLabel = originalLabel,
                       en_corefGroup = Undefined\<rparr>]\<rparr>)
           | _ \<Rightarrow> Raise TypeError h))"

definition set_en_corefGroup :: "console \<Rightarrow> ref \<Rightarrow> ref jsval \<Rightarrow> heap \<Rightarrow> unit result" where
  "set_en_corefGroup c r newValue h =
     (if r < length (entities h) then
        (case writeonlyonce_set c (en_corefGroup (entities h ! r)) newValue of
           Inl e \<Rightarrow> Raise e h
         | Inr v \<Rightarrow> Return () (h\<lparr>entities := (entities h)[r := (entities h ! r)\<lparr>en_corefGroup := v\<rparr>]\<rparr>))
      else Raise TypeError h)"

text \<open>
  \<^verbatim>\<open>
  constructor(entities) {
      super(entities);
      for (const entity of this) { entity.corefGroup = this; }
  }\<close>
\<close>

fun CoreferenceGroup_link :: "console \<Rightarrow> ref \<Rightarrow> ref jsval list \<Rightarrow> heap \<Rightarrow> ref result" where
  "CoreferenceGroup_link c this [] h = Return this h"
| "CoreferenceGroup_link c this (Val r # rest) h =
     (case set_en_corefGroup c r (Val this) h of
        Raise e h1 \<Rightarrow> Raise e h1
      | Return u h1 \<Rightarrow> CoreferenceGroup_link c this rest h1)"
| "CoreferenceGroup_link c this (Undefined # rest) h = Raise TypeError h"
| "CoreferenceGroup_link c this (Null # rest) h = Raise TypeError h"

definition CoreferenceGroup_new :: "console \<Rightarrow> ref jsval list \<Rightarrow> heap \<Rightarrow> ref result" where
  "CoreferenceGroup_new c ents h =
     CoreferenceGroup_link c (length (corefGroups h)) ents
       (h\<lparr>corefGroups := corefGroups h @ [\<lparr>cg_items = ents\<rparr>]\<rparr>)"

subsection \<open>Edges\<close>

text \<open>
  \<^verbatim>\<open>
  constructor(src, dest, label) {
      super();
      console.assert(isDefined(dest), "[dest] ...");
      this._src = src;  this._dest = dest;  this._label = label;
  }\<close>
  A subclass constructor reaches this code through \<^verbatim>\<open>super(...)\<close>; the object then has
  the class of the subclass, which is the first argument here.
\<close>

definition DAGEdge_init ::
  "console \<Rightarrow> edge_class \<Rightarrow> ref jsval \<Rightarrow> ref jsval \<Rightarrow> string jsval \<Rightarrow> heap \<Rightarrow> ref result" where
  "DAGEdge_init c cls src dest lbl h =
     (case console_assert c (isDefined dest) of
        Some e \<Rightarrow> Raise e h
      | None \<Rightarrow>
          Return (length (edges h))
            (h\<lparr>edges := edges h @
                [\<lparr>e_class = cls, e_src = src, e_dest = dest, e_label = lbl,
                  e_type = Undefined, e_modifiers = Undefined,
                  e_originalLabel = Undefined\<rparr>]\<rparr>))"

definition DAGEdge_new ::
  "console \<Rightarrow> ref jsval \<Rightarrow> ref jsval \<Rightarrow> string jsval \<Rightarrow> heap \<Rightarrow> ref result" where
  "DAGEdge_new c src dest lbl h = DAGEdge_init c DAGEdgeC src dest lbl h"

text \<open>
  \<^verbatim>\<open>someWord.someList.push(this)\<close> for the three edge lists of a word; the callers guard
  it with \<^verbatim>\<open>isDefined\<close>.
\<close>

definition push_edge ::
  "((ref list \<Rightarrow> ref list) \<Rightarrow> word \<Rightarrow> word) \<Rightarrow> ref jsval \<Rightarrow> ref \<Rightarrow> heap \<Rightarrow> unit result" where
  "push_edge upd target this h =
     (case target of
        Val r \<Rightarrow>
          (if r < length (words h) then
             Return () (h\<lparr>words := (words h)[r := upd (\<lambda>es. es @ [this]) (words h ! r)]\<rparr>)
           else Raise TypeError h)
      | _ \<Rightarrow> Return () h)"

text \<open>
  \<^verbatim>\<open>
  constructor(governor, dependent, type, depType, originalLabel) {
      console.assert(isDefined(type), ...);
      super(governor, dependent, depType);
      this._type = type;
      this._originalLabel = originalLabel;
      if (isDefined(this.dest)) { this.dest.governorEdge = this; }
      if (isDefined(this.src)) { this.src.dependentEdges.push(this); }
  }\<close>
\<close>

definition DepEdge_new ::
  "console \<Rightarrow> ref jsval \<Rightarrow> ref jsval \<Rightarrow> string jsval \<Rightarrow> string jsval \<Rightarrow> string jsval \<Rightarrow>
   heap \<Rightarrow> ref result" where
  "DepEdge_new c governor dependent type depType originalLabel h =
     (case console_assert c (isDefined type) of
        Some e \<Rightarrow> Raise e h
      | None \<Rightarrow>
          (case DAGEdge_init c DepEdgeC governor dependent depType h of
             Raise e h1 \<Rightarrow> Raise e h1
           | Return this h1 \<Rightarrow>
               (let h2 = h1\<lparr>edges := (edges h1)[this := (edges h1 ! this)
                              \<lparr>e_type := type, e_originalLabel := originalLabel\<rparr>]\<rparr>
                in case (case dependent of
                           Val d \<Rightarrow> set_w_governorEdge c d (Val this) h2
                         | _ \<Rightarrow> Return () h2) of
                     Raise e h3 \<Rightarrow> Raise e h3
                   | Return u h3 \<Rightarrow>
                       (case push_edge w_dependentEdges_update governor this h3 of
                          Raise e h4 \<Rightarrow> Raise e h4
                        | Return u h4 \<Rightarrow> Return this h4))))"

text \<open>
  \<^verbatim>\<open>
  constructor(predicate, argument, label, modifiers, originalLabel) {
      console.assert(isDefined(predicate) && isDefined(label), ...);
      super(predicate, argument, label);
      this._modifiers = modifiers;
      this._originalLabel = originalLabel;
      if (isDefined(this.dest)) { this.dest.predicateRoles.push(this); }
      if (isDefined(this.src)) { this.src.argumentRoles.push(this); }
  }\<close>
\<close>

definition RoleEdge_new ::
  "console \<Rightarrow> ref jsval \<Rightarrow> ref jsval \<Rightarrow> string jsval \<Rightarrow> ref list jsval \<Rightarrow> string jsval \<Rightarrow>
   heap \<Rightarrow> ref result" where
  "RoleEdge_new c predicate argument lbl mods originalLabel h =
     (case console_assert c (isDefined predicate \<and> isDefined lbl) of
        Some e \<Rightarrow> Raise e h
      | None \<Rightarrow>
          (case DAGEdge_init c RoleEdgeC predicate argument lbl h of
             Raise e h1 \<Rightarrow> Raise e h1
           | Return this h1 \<Rightarrow>
               (let h2 = h1\<lparr>edges := (edges h1)[this := (edges h1 ! this)
                              \<lparr>e_modifiers := mods, e_originalLabel := originalLabel\<rparr>]\<rparr>
                in case push_edge w_predicateRoles_update argument this h2 of
                     Raise e h3 \<Rightarrow> Raise e h3
                   | Return u h3 \<Rightarrow>
                       (case push_edge w_argumentRoles_update predicate this h3 of
                          Raise e h4 \<Rightarrow> Raise e h4
                        | Return u h4 \<Rightarrow> Return this h4))))"

subsection \<open>The immutable array\<close>

text \<open>
  \<^verbatim>\<open>ImmutableArray\<close> extends \<^verbatim>\<open>Array\<close> and overrides five of its methods with
  \<^verbatim>\<open>throw Error(...)\<close>: \<^verbatim>\<open>copyWithin\<close>, \<^verbatim>\<open>pop\<close>, \<^verbatim>\<open>push\<close>,
  \<^verbatim>\<open>sort\<close> and \<^verbatim>\<open>fill\<close>. Every other method is the one of \<^verbatim>\<open>Array\<close>; of the
  methods of \<^verbatim>\<open>Array\<close> that change the array in place, \<^verbatim>\<open>reverse\<close>,
  \<^verbatim>\<open>shift\<close> and \<^verbatim>\<open>unshift\<close> are modelled. A call yields the exception, if any,
  and the contents after it.
\<close>

datatype 'a mutation =
    CopyWithin int int int
  | Pop
  | Push "'a list"
  | Sort
  | Fill 'a
  | Reverse
  | Shift
  | Unshift "'a list"

fun ImmutableArray_call :: "'a mutation \<Rightarrow> 'a list \<Rightarrow> error option \<times> 'a list" where
  "ImmutableArray_call (CopyWithin target start stop) xs = (Some Error, xs)"
| "ImmutableArray_call Pop xs = (Some Error, xs)"
| "ImmutableArray_call (Push items) xs = (Some Error, xs)"
| "ImmutableArray_call Sort xs = (Some Error, xs)"
| "ImmutableArray_call (Fill v) xs = (Some Error, xs)"
| "ImmutableArray_call Reverse xs = (None, rev xs)"
| "ImmutableArray_call Shift xs = (None, tl xs)"
| "ImmutableArray_call (Unshift items) xs = (None, items @ xs)"

subsection \<open>Equality\<close>

text \<open>
  \<^verbatim>\<open>equals\<close> takes any value. An object is named by its class table and its position
  there; two names are the same object exactly when they are equal. Foreign (Java)
  objects are objects as well.
\<close>

datatype objref =
    MorphemeRef ref
  | WordRef ref
  | EntityRef ref
  | CorefGroupRef ref
  | SentenceRef ref
  | EdgeRef ref
  | JavaRef ref

fun map_jsval :: "('a \<Rightarrow> 'b) \<Rightarrow> 'a jsval \<Rightarrow> 'b jsval" where
  "map_jsval f Undefined = Undefined"
| "map_jsval f Null = Null"
| "map_jsval f (Val v) = Val (f v)"

text \<open>
  The indexed entries of an object whose class extends \<^verbatim>\<open>Array\<close>; \<open>None\<close> for an
  object that is not an array.
\<close>

fun items_of :: "heap \<Rightarrow> objref \<Rightarrow> objref jsval list option" where
  "items_of h (WordRef r) = Some (map (\<lambda>m. Val (MorphemeRef m)) (w_items (words h ! r)))"
| "items_of h (EntityRef r) = Some (map (map_jsval MorphemeRef) (en_items (entities h ! r)))"
| "items_of h (CorefGroupRef r) = Some (map (map_jsval EntityRef) (cg_items (corefGroups h ! r)))"
| "items_of h (SentenceRef r) = Some (map (\<lambda>w. Val (WordRef w)) (s_items (sentences h ! r)))"
| "items_of h (MorphemeRef r) = None"
| "items_of h (EdgeRef r) = None"
| "items_of h (JavaRef r) = None"

text \<open>
  \<^verbatim>\<open>_.isEqual(a, b)\<close> of underscore 1.9, for an array \<open>a\<close>: true when \<open>b\<close> is the
  same object; false when \<open>b\<close> is \<^verbatim>\<open>undefined\<close> or \<^verbatim>\<open>null\<close>, or when
  \<^verbatim>\<open>Object.prototype.toString\<close> does not give \<^verbatim>\<open>[object Array]\<close> for both; otherwise
  the lengths are compared and then the entries pairwise, "ignoring non-numeric
  properties". Constructors are compared only for objects that are not arrays. Two
  entries are equal when they are the same value; failing that, when both are objects
  that the recursive comparison of their properties finds equal. That comparison walks
  the whole graph reachable from the two entries; its verdict on two distinct objects is
  the parameter \<open>eq\<close>.
\<close>

fun entry_equal :: "(objref \<Rightarrow> objref \<Rightarrow> bool) \<Rightarrow> objref jsval \<Rightarrow> objref jsval \<Rightarrow> bool" where
  "entry_equal eq (Val a) (Val b) = (a = b \<or> eq a b)"
| "entry_equal eq x y = (x = y)"

definition isEqual :: "(objref \<Rightarrow> objref \<Rightarrow> bool) \<Rightarrow> heap \<Rightarrow> objref \<Rightarrow> objref jsval \<Rightarrow> bool" where
  "isEqual eq h a other =
     (case other of
        Val b \<Rightarrow>
          a = b \<or>
          (case (items_of h a, items_of h b) of
             (Some xs, Some ys) \<Rightarrow> length xs = length ys \<and> list_all2 (entry_equal eq) xs ys
           | _ \<Rightarrow> False)
      | _ \<Rightarrow> False)"

text \<open>
  \<^verbatim>\<open>
  equals(other) {
      return typeof(other) === typeof(this) && _.isEqual(this, other)
  }\<close>
\<close>

definition ImmutableArray_equals ::
  "(objref \<Rightarrow> objref \<Rightarrow> bool) \<Rightarrow> heap \<Rightarrow> objref \<Rightarrow> objref jsval \<Rightarrow> bool" where
  "ImmutableArray_equals eq h this other =
     (typeof other = typeof (Val this) \<and> isEqual eq h this other)"

text \<open>
  Reading a property of an object that does not have it yields \<^verbatim>\<open>undefined\<close>.
  \<^verbatim>\<open>surface\<close> is a getter of words, entities and morphemes; \<^verbatim>\<open>_label\<close> a field of
  entities and edges; \<^verbatim>\<open>fineLabel\<close> a getter of entities; \<^verbatim>\<open>_type\<close> a field of
  dependency edges; \<^verbatim>\<open>src\<close> and \<^verbatim>\<open>dest\<close> getters of edges. A foreign object
  offers its data through methods and has none of these properties.
\<close>

fun get_surface :: "heap \<Rightarrow> objref \<Rightarrow> string jsval" where
  "get_surface h (WordRef r) = w_surface (words h ! r)"
| "get_surface h (EntityRef r) = en_surface (entities h ! r)"
| "get_surface h (MorphemeRef r) = Val (m_surface (morphemes h ! r))"
| "get_surface h x = Undefined"

fun get__label :: "heap \<Rightarrow> objref \<Rightarrow> string jsval" where
  "get__label h (EntityRef r) = en_label (entities h ! r)"
| "get__label h (EdgeRef r) = e_label (edges h ! r)"
| "get__label h x = Undefined"

fun get_fineLabel :: "heap \<Rightarrow> objref \<Rightarrow> string jsval" where
  "get_fineLabel h (EntityRef r) = en_fineLabel (entities h ! r)"
| "get_fineLabel h x = Undefined"

fun get__type :: "heap \<Rightarrow> objref \<Rightarrow> string jsval" where
  "get__type h (EdgeRef r) = e_type (edges h ! r)"
| "get__type h x = Undefined"

fun get_src :: "heap \<Rightarrow> objref \<Rightarrow> objref jsval" where
  "get_src h (EdgeRef r) = map_jsval WordRef (e_src (edges h ! r))"
| "get_src h x = Undefined"

fun get_dest :: "heap \<Rightarrow> objref \<Rightarrow> objref jsval" where
  "get_dest h (EdgeRef r) = map_jsval WordRef (e_dest (edges h ! r))"
| "get_dest h x = Undefined"

text \<open>
  \<^verbatim>\<open>Word.equals\<close>: \<^verbatim>\<open>super.equals(other) && this.surface === other.surface\<close>. When
  \<open>other\<close> is \<^verbatim>\<open>undefined\<close> or \<^verbatim>\<open>null\<close> the first operand is false and the second is
  not evaluated.
\<close>

definition Word_equals ::
  "(objref \<Rightarrow> objref \<Rightarrow> bool) \<Rightarrow> heap \<Rightarrow> ref \<Rightarrow> objref jsval \<Rightarrow> bool" where
  "Word_equals eq h this other =
     (ImmutableArray_equals eq h (WordRef this) other \<and>
      (case other of Val b \<Rightarrow> w_surface (words h ! this) = get_surface h b | _ \<Rightarrow> False))"

text \<open>
  \<^verbatim>\<open>
  equals(other) {
      return this._label === other._label &&
          this.fineLabel === other.fineLabel &&
          super.equals(other);
  }\<close>
  Reading \<^verbatim>\<open>other._label\<close> raises when \<open>other\<close> is \<^verbatim>\<open>undefined\<close> or \<^verbatim>\<open>null\<close>.
\<close>

definition Entity_equals ::
  "(objref \<Rightarrow> objref \<Rightarrow> bool) \<Rightarrow> heap \<Rightarrow> ref \<Rightarrow> objref jsval \<Rightarrow> error + bool" where
  "Entity_equals eq h this other =
     (case other of
        Val b \<Rightarrow>
          Inr (en_label (entities h ! this) = get__label h b \<and>
               en_fineLabel (entities h ! this) = get_fineLabel h b \<and>
               ImmutableArray_equals eq h (EntityRef this) other)
      | _ \<Rightarrow> Inl TypeError)"

text \<open>
  \<^verbatim>\<open>
  equals(other) {
      return typeof(this) === typeof(other) && this._label === other._label &&
          this.src.equals(other.src) && this.dest.equals(other.dest)
  }\<close>
  The operands of \<^verbatim>\<open>&&\<close> are evaluated from the left, and the first false one ends
  the evaluation. \<^verbatim>\<open>this.src.equals\<close> raises when \<^verbatim>\<open>this.src\<close> is \<^verbatim>\<open>undefined\<close>
  or \<^verbatim>\<open>null\<close>, and so does \<^verbatim>\<open>this.dest.equals\<close>; \<^verbatim>\<open>other._label\<close> raises when
  \<open>other\<close> is \<^verbatim>\<open>null\<close>. The source and the destination of an edge are words.
\<close>

definition DAGEdge_equals ::
  "(objref \<Rightarrow> objref \<Rightarrow> bool) \<Rightarrow> heap \<Rightarrow> ref \<Rightarrow> objref jsval \<Rightarrow> error + bool" where
  "DAGEdge_equals eq h this other =
     (if typeof (Val (EdgeRef this)) \<noteq> typeof other then Inr False
      else case other of
        Val b \<Rightarrow>
          (if e_label (edges h ! this) \<noteq> get__label h b then Inr False
           else case e_src (edges h ! this) of
             Val s \<Rightarrow>
               (if \<not> Word_equals eq h s (get_src h b) then Inr False
                else case e_dest (edges h ! this) of
                  Val d \<Rightarrow> Inr (Word_equals eq h d (get_dest h b))
                | _ \<Rightarrow> Inl TypeError)
           | _ \<Rightarrow> Inl TypeError)
      | _ \<Rightarrow> Inl TypeError)"

text \<open>
  \<^verbatim>\<open>DepEdge\<close> overrides it:
  \<^verbatim>\<open>return this._type === other._type && super.equals(other);\<close>
  \<^verbatim>\<open>RoleEdge\<close> does not. \<open>edge_equals\<close> is the call \<^verbatim>\<open>edge.equals(other)\<close>,
  dispatched on the class of the edge.
\<close>

definition DepEdge_equals ::
  "(objref \<Rightarrow> objref \<Rightarrow> bool) \<Rightarrow> heap \<Rightarrow> ref \<Rightarrow> objref jsval \<Rightarrow> error + bool" where
  "DepEdge_equals eq h this other =
     (case other of
        Val b \<Rightarrow>
          (if e_type (edges h ! this) \<noteq> get__type h b then Inr False
           else DAGEdge_equals eq h this other)
      | _ \<Rightarrow> Inl TypeError)"

definition edge_equals ::
  "(objref \<Rightarrow> objref \<Rightarrow> bool) \<Rightarrow> heap \<Rightarrow> ref \<Rightarrow> objref jsval \<Rightarrow> error + bool" where
  "edge_equals eq h this other =
     (case e_class (edges h ! this) of
        DepEdgeC \<Rightarrow> DepEdge_equals eq h this other
      | _ \<Rightarrow> DAGEdge_equals eq h this other)"

subsection \<open>The comparison of entries carried out on the store\<close>



















subsection \<open>Replace-if-empty slots of a sentence\<close>

text \<open>
  \<^verbatim>\<open>replaceableifempty\<close> gives a property a hidden list, initially empty, and the setter
  \<^verbatim>\<open>
  (newValue) => {
      console.assert(value.length === 0, ...);
      value = Object.freeze(newValue);
  }\<close>
\<close>

definition replaceableifempty_set :: "console \<Rightarrow> 'a list \<Rightarrow> 'a list \<Rightarrow> error + 'a list" where
  "replaceableifempty_set c value newValue =
     (case console_assert c (length value = 0) of
        Some e \<Rightarrow> Inl e
      | None \<Rightarrow> Inr newValue)"

definition set_s_entities :: "console \<Rightarrow> ref \<Rightarrow> ref list \<Rightarrow> heap \<Rightarrow> unit result" where
  "set_s_entities c r newValue h =
     (if r < length (sentences h) then
        (case replaceableifempty_set c (s_entities (sentences h ! r)) newValue of
           Inl e \<Rightarrow> Raise e h
         | Inr v \<Rightarrow> Return () (h\<lparr>sentences := (sentences h)[r := (sentences h ! r)\<lparr>s_entities := v\<rparr>]\<rparr>))
      else Raise TypeError h)"

definition set_s_syntaxTree :: "console \<Rightarrow> ref \<Rightarrow> ref jsval \<Rightarrow> heap \<Rightarrow> unit result" where
  "set_s_syntaxTree c r newValue h =
     (if r < length (sentences h) then
        (case writeonlyonce_set c (s_syntaxTree (sentences h ! r)) newValue of
           Inl e \<Rightarrow> Raise e h
         | Inr v \<Rightarrow> Return () (h\<lparr>sentences := (sentences h)[r := (sentences h ! r)\<lparr>s_syntaxTree := v\<rparr>]\<rparr>))
      else Raise TypeError h)"

subsection \<open>Reconstruction of entities and coreference groups\<close>

text \<open>
  The foreign analyzer's objects are not part of the module; what the module asks of
  them is recorded here. A foreign morpheme answers \<^verbatim>\<open>getWord().getId()\<close> and
  \<^verbatim>\<open>getId()\<close>; a foreign entity answers \<^verbatim>\<open>getSurface()\<close>,
  \<^verbatim>\<open>getLabel().name()\<close>, \<^verbatim>\<open>getFineLabel()\<close>, \<^verbatim>\<open>getOriginalLabel()\<close> and lists
  its morphemes; a foreign coreference group lists its entities. \<open>je_ref\<close> names the
  foreign object itself.
\<close>

record jmorpheme =
  jm_wordId :: nat
  jm_id :: nat

record jentity =
  je_ref :: ref
  je_surface :: string
  je_label :: string
  je_fineLabel :: string
  je_morphemes :: "jmorpheme list"
  je_originalLabel :: "string jsval"

text \<open>
  \<^verbatim>\<open>
  _getMorph(jmorph) {
      if (isDefined(jmorph)) { return this[jmorph.getWord().getId()][jmorph.getId()]; }
      else { return undefined; }
  }\<close>
  An index past the end of an array reads \<^verbatim>\<open>undefined\<close>; indexing \<^verbatim>\<open>undefined\<close>
  raises.
\<close>

definition getMorph :: "heap \<Rightarrow> ref \<Rightarrow> jmorpheme jsval \<Rightarrow> error + ref jsval" where
  "getMorph h this jmorph =
     (case jmorph of
        Val jm \<Rightarrow>
          (if jm_wordId jm < length (s_items (sentences h ! this)) \<and>
              s_items (sentences h ! this) ! jm_wordId jm < length (words h)
           then
             (let ms = w_items (words h ! (s_items (sentences h ! this) ! jm_wordId jm))
              in if jm_id jm < length ms then Inr (Val (ms ! jm_id jm)) else Inr Undefined)
           else Inl TypeError)
      | _ \<Rightarrow> Inr Undefined)"

text \<open>
  Modelled from the spec: \<^verbatim>\<open>JVM.toJsArray(collection, f)\<close> of \<^verbatim>\<open>jvm.js\<close> is missing;
  the spec has reconstruction translate "each" element of an "ordered collection", so
  it applies \<open>f\<close> to the elements in order and collects the results.
\<close>

fun getMorphs :: "heap \<Rightarrow> ref \<Rightarrow> jmorpheme list \<Rightarrow> error + ref jsval list" where
  "getMorphs h this [] = Inr []"
| "getMorphs h this (x # xs) =
     (case getMorph h this (Val x) of
        Inl e \<Rightarrow> Inl e
      | Inr m \<Rightarrow>
          (case getMorphs h this xs of
             Inl e \<Rightarrow> Inl e
           | Inr ms \<Rightarrow> Inr (m # ms)))"

text \<open>
  \<^verbatim>\<open>
  _getEntity(e) {
      let enty = new Entity(e.getSurface(), e.getLabel().name(), e.getFineLabel(),
          JVM.toJsArray(e, (x) => this._getMorph(x)), getOrUndefined(e.getOriginalLabel()));
      enty.reference = e;
      return enty;
  }\<close>
\<close>

definition getEntity :: "console \<Rightarrow> ref \<Rightarrow> jentity \<Rightarrow> heap \<Rightarrow> ref result" where
  "getEntity c this e h =
     (case getMorphs h this (je_morphemes e) of
        Inl err \<Rightarrow> Raise err h
      | Inr ms \<Rightarrow>
          Entity_new c (Val (je_surface e)) (Val (je_label e)) (Val (je_fineLabel e)) (Val ms)
            (getOrUndefined (je_originalLabel e)) h)"

text \<open>
  \<^verbatim>\<open>Array.prototype.find\<close>: the first entry that passes, or \<^verbatim>\<open>undefined\<close>.
\<close>

fun Array_find :: "('a \<Rightarrow> bool) \<Rightarrow> 'a list \<Rightarrow> 'a jsval" where
  "Array_find p [] = Undefined"
| "Array_find p (x # xs) = (if p x then Val x else Array_find p xs)"

text \<open>
  \<^verbatim>\<open>
  _getCorefGroup(c) {
      let coref = new CoreferenceGroup(
          JVM.toJsArray(c, (e) => {
              let referenced = this._getEntity(e);
              return this.entities.find((enty) => enty.equals(e));
          })
      );
      coref.reference = c;
      return coref;
  }\<close>
  The argument of \<^verbatim>\<open>enty.equals\<close> is the foreign entity \<open>e\<close>, an object, so the call
  returns a boolean. \<open>getCorefGroup_members\<close> is the \<^verbatim>\<open>toJsArray\<close> over the members.
\<close>

fun getCorefGroup_members ::
  "console \<Rightarrow> (objref \<Rightarrow> objref \<Rightarrow> bool) \<Rightarrow> ref \<Rightarrow> jentity list \<Rightarrow> heap \<Rightarrow> ref jsval list result" where
  "getCorefGroup_members c eq this [] h = Return [] h"
| "getCorefGroup_members c eq this (e # es) h =
     (case getEntity c this e h of
        Raise err h1 \<Rightarrow> Raise err h1
      | Return referenced h1 \<Rightarrow>
          (let found = Array_find
                 (\<lambda>enty. Entity_equals eq h1 enty (Val (JavaRef (je_ref e))) = Inr True)
                 (s_entities (sentences h1 ! this))
           in case getCorefGroup_members c eq this es h1 of
                Raise err h2 \<Rightarrow> Raise err h2
              | Return rest h2 \<Rightarrow> Return (found # rest) h2))"

definition getCorefGroup ::
  "console \<Rightarrow> (objref \<Rightarrow> objref \<Rightarrow> bool) \<Rightarrow> ref \<Rightarrow> jentity list \<Rightarrow> heap \<Rightarrow> ref result" where
  "getCorefGroup c eq this jc h =
     (case getCorefGroup_members c eq this jc h of
        Raise err h1 \<Rightarrow> Raise err h1
      | Return members h1 \<Rightarrow> CoreferenceGroup_new c members h1)"

subsection \<open>Scenarios\<close>

text \<open>
  Small stores built by the constructors, for the concrete instances below. Surfaces are
  romanised. Every morpheme here is fresh when its word is built, and every word when
  its sentence is built, so no assertion is involved and either console gives the same
  store.
\<close>

definition empty_heap :: heap where
  "empty_heap =
     \<lparr>morphemes = [], words = [], entities = [], corefGroups = [], edges = [], sentences = []\<rparr>"

definition two_morphemes :: heap where
  "two_morphemes =
     heap_of (Morpheme_new ''ha'' ''XSV'' Undefined
       (heap_of (Morpheme_new ''gongbu'' ''NNG'' Undefined empty_heap)))"

definition one_word :: "console \<Rightarrow> ref result" where
  "one_word c = Word_new c (Val ''gongbuha'') (Val [0, 1]) two_morphemes"

definition one_sentence :: "ref result" where
  "one_sentence = Sentence_new Logging (Val [0]) (heap_of (one_word Logging))"

definition example_vocabulary :: pos_vocabulary where
  "example_vocabulary =
     \<lparr>pos_isNoun = (\<lambda>t. prefix ''N'' t), pos_isPredicate = (\<lambda>t. prefix ''V'' t)\<rparr>"

definition three_morphemes :: heap where
  "three_morphemes =
     heap_of (Morpheme_new ''c'' ''NNG'' Undefined
       (heap_of (Morpheme_new ''b'' ''NNG'' Undefined
         (heap_of (Morpheme_new ''a'' ''NNG'' Undefined empty_heap)))))"

definition three_words :: heap where
  "three_words =
     heap_of (Word_new Logging (Val ''c'') (Val [2])
       (heap_of (Word_new Logging (Val ''b'') (Val [1])
         (heap_of (Word_new Logging (Val ''a'') (Val [0]) three_morphemes)))))"

definition three_word_sentence :: heap where
  "three_word_sentence = heap_of (Sentence_new Logging (Val [0, 1, 2]) three_words)"

text \<open>
  The same three words in a sentence that lists them in another order, so that the
  position index of a word differs from its place in the store.
\<close>

definition permuted_sentence :: heap where
  "permuted_sentence = heap_of (Sentence_new Logging (Val [2, 0, 1]) three_words)"



text \<open>A tree whose children are stored against the order of the words.\<close>

definition example_tree :: tree where
  "example_tree =
     Tree ''S'' Undefined [Tree ''VP'' (Val 2) [], Tree ''NP'' (Val 0) [Tree ''N'' (Val 1) []]]"

text \<open>A word built, then its \<^verbatim>\<open>phrase\<close> assigned twice, with two different trees.\<close>

definition phrase_twice :: "console \<Rightarrow> unit result" where
  "phrase_twice c =
     set_w_phrase c 0 (Val 8) (heap_of (set_w_phrase c 0 (Val 7) (heap_of (one_word c))))"

text \<open>
  A word built from a list that holds the same morpheme object twice, and a sentence
  built from a list that holds the same word object twice.
\<close>

definition doubled_word :: "console \<Rightarrow> ref result" where
  "doubled_word c = Word_new c (Val ''haha'') (Val [0, 0]) two_morphemes"

definition doubled_sentence :: "console \<Rightarrow> ref result" where
  "doubled_sentence c = Sentence_new c (Val [0, 0]) (heap_of (one_word c))"

text \<open>An empty sentence and an empty coreference group.\<close>

definition empty_sentence_and_group :: heap where
  "empty_sentence_and_group =
     heap_of (CoreferenceGroup_new Logging []
       (heap_of (Sentence_new Logging (Val []) empty_heap)))"

text \<open>
  Three edges from word 1 to word 0 with the same label: edge 0 a \<^verbatim>\<open>DAGEdge\<close>, edge 1
  a \<^verbatim>\<open>DepEdge\<close>, edge 2 a \<^verbatim>\<open>RoleEdge\<close>.
\<close>

definition three_edges :: heap where
  "three_edges =
     heap_of (RoleEdge_new Logging (Val 1) (Val 0) (Val ''SBJ'') (Val []) Undefined
       (heap_of (DepEdge_new Logging (Val 1) (Val 0) (Val ''NP'') (Val ''SBJ'') Undefined
         (heap_of (DAGEdge_new Logging (Val 1) (Val 0) (Val ''SBJ'') three_words)))))"

text \<open>
  Edges without a source: edge 0 a \<^verbatim>\<open>DepEdge\<close> to word 1 labelled \<^verbatim>\<open>ROOT\<close>, edge 1
  a \<^verbatim>\<open>DAGEdge\<close> to word 1 labelled \<^verbatim>\<open>ROOT\<close>; edge 2 a \<^verbatim>\<open>DAGEdge\<close> from word 1
  to word 0 labelled \<^verbatim>\<open>SBJ\<close>.
\<close>

definition root_edges :: heap where
  "root_edges =
     heap_of (DAGEdge_new Logging (Val 1) (Val 0) (Val ''SBJ'')
       (heap_of (DAGEdge_new Logging Undefined (Val 1) (Val ''ROOT'')
         (heap_of (DepEdge_new Logging Undefined (Val 1) (Val ''VP'') (Val ''ROOT'') Undefined
           three_words)))))"


text \<open>
  A sentence of three words whose entity list holds one entity over the first morpheme
  of the first word, and a foreign coreference group whose only member is the foreign
  twin of that entity.
\<close>

definition entity_sentence :: heap where
  "entity_sentence =
     heap_of (set_s_entities Logging 0 [0]
       (heap_of (Entity_new Logging (Val ''a'') (Val ''PS'') (Val ''PS_NAME'') (Val [Val 0])
         Undefined three_word_sentence)))"

definition foreign_group :: "jentity list" where
  "foreign_group =
     [\<lparr>je_ref = 0, je_surface = ''a'', je_label = ''PS'', je_fineLabel = ''PS_NAME'',
       je_morphemes = [\<lparr>jm_wordId = 0, jm_id = 0\<rparr>], je_originalLabel = Null\<rparr>]"




text \<open>Underscore's verdict on distinct entries, for the scenarios: no two are alike.\<close>

definition only_identical :: "objref \<Rightarrow> objref \<Rightarrow> bool" where
  "only_identical a b = False"

subsection \<open>Auxiliary notions\<close>

text \<open>The store after one round of the loop of the \<^verbatim>\<open>Word\<close> constructor.\<close>

definition linked :: "ref \<Rightarrow> nat \<Rightarrow> ref \<Rightarrow> heap \<Rightarrow> heap" where
  "linked this i m h =
     h\<lparr>morphemes := (morphemes h)[m := (morphemes h ! m)\<lparr>m_word := Val this, m_id := Val i\<rparr>]\<rparr>"

text \<open>What \<^verbatim>\<open>getTerminals\<close> gathers before it sorts: every terminal but \<^verbatim>\<open>undefined\<close>.\<close>

fun pushed_terminals :: "tree \<Rightarrow> ref jsval list" where
  "pushed_terminals (Tree lbl term cs) =
     concat (map pushed_terminals cs) @ (if term \<noteq> Undefined then [term] else [])"

section \<open>Properties\<close>

lemmas scenario_defs = empty_heap_def two_morphemes_def one_word_def one_sentence_def
  three_morphemes_def three_words_def three_word_sentence_def example_tree_def
  Morpheme_new_def Word_new_def Sentence_new_def set_m_word_def set_m_id_def set_w_id_def
  writeonlyonce_set_def

subsection \<open>Terminals of a tree\<close>

lemma mset_sort_insert: "mset (sort_insert cmp x ys) = add_mset x (mset ys)"
  by (induction ys) auto

lemma mset_insertion_sort: "mset (foldr (sort_insert cmp) xs []) = mset xs"
  by (induction xs) (auto simp: mset_sort_insert)

lemma Array_sort_by_id_mset:
  "Array_sort_by_id h xs = Inr ys \<Longrightarrow> mset ys = mset xs"
  by (auto simp: Array_sort_by_id_def mset_insertion_sort split: if_splits)

lemma getTerminals_mset_both:
  "(\<forall>ws. getTerminals h t = Inr ws \<longrightarrow> mset ws = mset (pushed_terminals t))"
  "(\<forall>ws. getTerminals_reduce h cs acc = Inr ws \<longrightarrow>
       mset ws = mset acc + mset (concat (map pushed_terminals cs)))"
proof (induction h t and h cs acc rule: getTerminals_getTerminals_reduce.induct)
  case (1 h lbl tm cs)
  show ?case
  proof (intro allI impI)
    fix ws assume r: "getTerminals h (Tree lbl tm cs) = Inr ws"
    then obtain leaves where l: "getTerminals_reduce h cs [] = Inr leaves"
      and s: "Array_sort_by_id h (if tm \<noteq> Undefined then leaves @ [tm] else leaves) = Inr ws"
      by (auto split: sum.splits)
    from 1 l have "mset leaves = mset (concat (map pushed_terminals cs))" by simp
    with Array_sort_by_id_mset [OF s] show "mset ws = mset (pushed_terminals (Tree lbl tm cs))"
      by (simp split: if_splits)
  qed
next
  case (2 h acc)
  show ?case by simp
next
  case (3 h child rest acc)
  show ?case
  proof (intro allI impI)
    fix ws assume r: "getTerminals_reduce h (child # rest) acc = Inr ws"
    then obtain ts where t: "getTerminals h child = Inr ts"
      and r': "getTerminals_reduce h rest (acc @ ts) = Inr ws"
      by (auto split: sum.splits)
    from 3(1) t have "mset ts = mset (pushed_terminals child)" by simp
    moreover from 3(2) [OF t] r'
    have "mset ws = mset (acc @ ts) + mset (concat (map pushed_terminals rest))" by simp
    ultimately show "mset ws = mset acc + mset (concat (map pushed_terminals (child # rest)))"
      by simp
  qed
qed

lemma positive_compare_id:
  "has_index h x \<Longrightarrow> has_index h y \<Longrightarrow>
   positive (compare_id h x y) = (position_index h y < position_index h x)"
  by (cases x; cases y) (auto simp: compare_id_def)

lemma set_sort_insert: "set (sort_insert cmp x ys) = insert x (set ys)"
  by (induction ys) auto

lemma sorted_sort_insert:
  assumes "has_index h x" "\<forall>y \<in> set ys. has_index h y" "sorted (map (position_index h) ys)"
  shows "sorted (map (position_index h) (sort_insert (compare_id h) x ys))"
  using assms
proof (induction ys)
  case Nil then show ?case by simp
next
  case (Cons y ys)
  have p: "positive (compare_id h x y) = (position_index h y < position_index h x)"
    using Cons.prems by (simp add: positive_compare_id del: position_index.simps)
  show ?case
  proof (cases "position_index h y < position_index h x")
    case True
    then show ?thesis using Cons p
      by (auto simp: set_sort_insert simp del: position_index.simps)
  next
    case False
    then show ?thesis using Cons.prems p
      by (auto simp del: position_index.simps)
  qed
qed

lemma sorted_insertion_sort:
  "\<forall>x \<in> set xs. has_index h x \<Longrightarrow>
   sorted (map (position_index h) (foldr (sort_insert (compare_id h)) xs []))"
proof (induction xs)
  case Nil show ?case by simp
next
  case (Cons x xs)
  have "set (foldr (sort_insert (compare_id h)) xs []) = set xs"
    by (metis mset_insertion_sort set_mset_mset)
  with Cons show ?case
    by (simp add: sorted_sort_insert del: position_index.simps)
qed

lemma has_index_is_word: "has_index h x \<Longrightarrow> is_word h x"
  by (cases x) auto

lemma Array_sort_by_id_total:
  assumes "\<forall>x \<in> set xs. has_index h x"
  shows "\<exists>ys. Array_sort_by_id h xs = Inr ys \<and> sorted (map (position_index h) ys)"
proof (cases "length xs < 2")
  case True
  then have "xs = [] \<or> (\<exists>x. xs = [x])"
    by (cases xs; cases "tl xs") auto
  then show ?thesis using True by (auto simp: Array_sort_by_id_def)
next
  case False
  have "list_all (is_word h) xs"
    using assms by (simp add: list_all_iff has_index_is_word)
  then show ?thesis using False sorted_insertion_sort [OF assms]
    by (simp add: Array_sort_by_id_def)
qed

lemma getTerminals_total_both:
  "(list_all (has_index h) (pushed_terminals t) \<longrightarrow> (\<exists>ws. getTerminals h t = Inr ws))"
  "(list_all (has_index h) (concat (map pushed_terminals cs)) \<longrightarrow>
       (\<exists>ws. getTerminals_reduce h cs acc = Inr ws))"
proof (induction h t and h cs acc rule: getTerminals_getTerminals_reduce.induct)
  case (1 h lbl tm cs)
  show ?case
  proof
    assume ok: "list_all (has_index h) (pushed_terminals (Tree lbl tm cs))"
    then have "list_all (has_index h) (concat (map pushed_terminals cs))"
      by (simp split: if_splits)
    with 1 obtain leaves where l: "getTerminals_reduce h cs [] = Inr leaves" by blast
    let ?all = "if tm \<noteq> Undefined then leaves @ [tm] else leaves"
    have "mset ?all = mset (pushed_terminals (Tree lbl tm cs))"
      using getTerminals_mset_both(2) [of h cs "[]"] l by (simp split: if_splits)
    then have "set ?all = set (pushed_terminals (Tree lbl tm cs))"
      by (metis set_mset_mset)
    with ok have "\<forall>x \<in> set ?all. has_index h x"
      by (simp only: list_all_iff)
    from Array_sort_by_id_total [OF this] obtain ys where "Array_sort_by_id h ?all = Inr ys"
      by blast
    with l show "\<exists>ws. getTerminals h (Tree lbl tm cs) = Inr ws" by simp
  qed
next
  case (2 h acc)
  show ?case by simp
next
  case (3 h child rest acc)
  show ?case
  proof
    assume ok: "list_all (has_index h) (concat (map pushed_terminals (child # rest)))"
    with 3(1) obtain ts where t: "getTerminals h child = Inr ts" by auto
    from ok 3(2) [OF t] obtain ws where "getTerminals_reduce h rest (acc @ ts) = Inr ws" by auto
    with t show "\<exists>ws. getTerminals_reduce h (child # rest) acc = Inr ws" by simp
  qed
qed

lemma getTerminals_sorted:
  assumes ok: "list_all (has_index h) (pushed_terminals t)"
    and r: "getTerminals h t = Inr ws"
  shows "sorted (map (position_index h) ws)"
proof (cases t)
  case (Tree lbl tm cs)
  from r Tree obtain leaves where l: "getTerminals_reduce h cs [] = Inr leaves"
    and s: "Array_sort_by_id h (if tm \<noteq> Undefined then leaves @ [tm] else leaves) = Inr ws"
    by (auto split: sum.splits)
  let ?all = "if tm \<noteq> Undefined then leaves @ [tm] else leaves"
  have "mset ?all = mset ws" using Array_sort_by_id_mset [OF s] by simp
  moreover have "mset ws = mset (pushed_terminals t)"
    using getTerminals_mset_both(1) r by blast
  ultimately have "set ?all = set (pushed_terminals t)" by (metis set_mset_mset)
  with ok have "\<forall>x \<in> set ?all. has_index h x" by (simp only: list_all_iff)
  from Array_sort_by_id_total [OF this] s show ?thesis by auto
qed


lemma terminals_indexed_pushed:
  "terminals_indexed h t \<Longrightarrow>
   pushed_terminals t = subtree_terminals t \<and> list_all (has_index h) (subtree_terminals t)"
proof (induction t rule: subtree_terminals.induct)
  case (1 lbl tm cs)
  then have cs: "\<forall>c \<in> set cs. pushed_terminals c = subtree_terminals c \<and>
                    list_all (has_index h) (subtree_terminals c)"
    by simp
  then have "concat (map pushed_terminals cs) = concat (map subtree_terminals cs)"
    by (simp cong: map_cong)
  moreover from cs have "list_all (has_index h) (concat (map subtree_terminals cs))"
    by (simp add: list_all_iff)
  moreover from 1(2) have "tm = Undefined \<or> has_index h tm" by simp
  then have "(if tm \<noteq> Undefined then [tm] else []) = (if isDefined tm then [tm] else [])"
    and "list_all (has_index h) (if isDefined tm then [tm] else [])"
    by (cases tm; simp)+
  ultimately show ?case by simp
qed

text \<open>
  For a tree of a sentence the call returns, and returns exactly the terminal words of
  the subtree in ascending order of their position index, however the children are
  stored.
\<close>

lemma getTerminals_indexed:
  assumes "terminals_indexed h t"
  shows "\<exists>ws. getTerminals h t = Inr ws \<and> mset ws = mset (subtree_terminals t) \<and>
              sorted (map (position_index h) ws)"
proof -
  from terminals_indexed_pushed [OF assms]
  have p: "pushed_terminals t = subtree_terminals t"
    and ok: "list_all (has_index h) (pushed_terminals t)" by simp_all
  with getTerminals_total_both(1) obtain ws where r: "getTerminals h t = Inr ws" by blast
  moreover have "mset ws = mset (pushed_terminals t)"
    using getTerminals_mset_both(1) r by blast
  moreover have "sorted (map (position_index h) ws)"
    using getTerminals_sorted [OF ok r] .
  ultimately show ?thesis using p by auto
qed

lemma example_getTerminals:
  "terminals_indexed permuted_sentence example_tree \<and>
   map (\<lambda>w. w_id (words permuted_sentence ! w)) [0, 1, 2] = [Val 1, Val 2, Val 0] \<and>
   getTerminals permuted_sentence example_tree = Inr [Val 2, Val 0, Val 1]"
  by (simp add: permuted_sentence_def scenario_defs Array_sort_by_id_def compare_id_def)


subsection \<open>Lexical-class queries\<close>

lemma findIndex_from_range:
  "findIndex_from i p xs = - 1 \<or> (int i \<le> findIndex_from i p xs \<and> findIndex_from i p xs < int (i + length xs))"
  by (induction xs arbitrary: i) (auto, force+)

lemma findIndex_from_none:
  "(findIndex_from i p xs = - 1) = (\<forall>x \<in> set xs. \<not> p x)"
proof (induction xs arbitrary: i)
  case Nil show ?case by simp
next
  case (Cons x xs)
  show ?case using Cons.IH [of "Suc i"] by auto
qed

lemma findIndex_from_first:
  "findIndex_from i p xs = int (i + k) \<longleftrightarrow> (k < length xs \<and> p (xs ! k) \<and> (\<forall>j < k. \<not> p (xs ! j)))"
proof (induction xs arbitrary: i k)
  case Nil show ?case by simp
next
  case (Cons x xs)
  show ?case
  proof (cases k)
    case 0
    have "findIndex_from (Suc i) p xs \<noteq> int i"
      using findIndex_from_range [of "Suc i" p xs] by auto
    then show ?thesis using 0 by auto
  next
    case (Suc k')
    have "findIndex_from (Suc i) p xs = int (Suc i + k') \<longleftrightarrow>
          (k' < length xs \<and> p (xs ! k') \<and> (\<forall>j < k'. \<not> p (xs ! j)))"
      by (rule Cons.IH)
    moreover have "(\<forall>j < Suc k'. \<not> p ((x # xs) ! j)) = (\<not> p x \<and> (\<forall>j < k'. \<not> p (xs ! j)))"
      by (auto simp: less_Suc_eq_0_disj)
    ultimately show ?thesis using Suc by auto
  qed
qed

lemma findLastIndex_below_range:
  "findLastIndex_below n xs p = - 1 \<or> (0 \<le> findLastIndex_below n xs p \<and> findLastIndex_below n xs p < int n)"
  by (induction n) auto

lemma findLastIndex_below_less:
  "findLastIndex_below n xs p < int i \<longleftrightarrow> (\<forall>j < n. p (xs ! j) \<longrightarrow> j < i)"
proof (induction n)
  case 0 show ?case by simp
next
  case (Suc n)
  show ?case
  proof (cases "p (xs ! n)")
    case True
    then show ?thesis by (auto simp: less_Suc_eq)
  next
    case False
    then show ?thesis using Suc by (auto simp: less_Suc_eq)
  qed
qed

lemma qualifies_iff:
  "(findIndex ms incl \<noteq> - 1 \<and> findIndex ms incl > findLastIndex ms excl)
     = first_inclusion_after_last_exclusion incl excl ms"
proof -
  let ?a = "findIndex_from 0 incl ms"
  show ?thesis
  proof (cases "?a = - 1")
    case True
    then have "\<forall>x \<in> set ms. \<not> incl x" by (simp add: findIndex_from_none)
    then show ?thesis using True
      by (auto simp: findIndex_def first_inclusion_after_last_exclusion_def)
  next
    case False
    with findIndex_from_range [of 0 incl ms] have "0 \<le> ?a" by auto
    then obtain i where i: "?a = int (0 + i)" by (metis add_0 nonneg_int_cases)
    then have fi: "i < length ms \<and> incl (ms ! i) \<and> (\<forall>j < i. \<not> incl (ms ! j))"
      using findIndex_from_first [of 0 incl ms i] by simp
    have uniq: "\<And>k. k < length ms \<and> incl (ms ! k) \<and> (\<forall>j < k. \<not> incl (ms ! j)) \<Longrightarrow> k = i"
      using fi by (meson linorder_neqE_nat)
    have lhs: "(findIndex ms incl \<noteq> - 1 \<and> findIndex ms incl > findLastIndex ms excl)
                 = (\<forall>j < length ms. excl (ms ! j) \<longrightarrow> j < i)"
      using i False by (simp add: findIndex_def findLastIndex_def findLastIndex_below_less)
    have rhs: "first_inclusion_after_last_exclusion incl excl ms
                 = (\<forall>j < length ms. excl (ms ! j) \<longrightarrow> j < i)"
      unfolding first_inclusion_after_last_exclusion_def
    proof
      assume "\<exists>k<length ms. incl (ms ! k) \<and> (\<forall>j<k. \<not> incl (ms ! j)) \<and>
                (\<forall>j<length ms. excl (ms ! j) \<longrightarrow> j < k)"
      then obtain k where k: "k < length ms \<and> incl (ms ! k) \<and> (\<forall>j<k. \<not> incl (ms ! j))"
        and q: "\<forall>j<length ms. excl (ms ! j) \<longrightarrow> j < k" by blast
      from uniq [OF k] q show "\<forall>j<length ms. excl (ms ! j) \<longrightarrow> j < i" by simp
    next
      assume "\<forall>j<length ms. excl (ms ! j) \<longrightarrow> j < i"
      with fi show "\<exists>k<length ms. incl (ms ! k) \<and> (\<forall>j<k. \<not> incl (ms ! j)) \<and>
                (\<forall>j<length ms. excl (ms ! j) \<longrightarrow> j < k)" by blast
    qed
    show ?thesis by (simp only: lhs rhs)
  qed
qed

lemma lexical_loop_filter:
  "lexical_loop incl excl h ws result =
     result @ filter (\<lambda>w. first_inclusion_after_last_exclusion incl excl (Word_morphemes h w)) ws"
proof (induction ws arbitrary: result)
  case Nil show ?case by simp
next
  case (Cons w ws)
  show ?case using qualifies_iff [of "Word_morphemes h w" incl excl]
    by (simp add: Cons.IH Let_def)
qed

lemma two_tags:
  assumes "map m_tag ms = [a, b]"
  obtains m0 m1 where "ms = [m0, m1]" "m_tag m0 = a" "m_tag m1 = b"
  using assms by (cases ms; cases "tl ms") auto

lemma NNG_XSV_not_noun:
  assumes "map m_tag ms = [''NNG'', ''XSV'']"
  shows "\<not> first_inclusion_after_last_exclusion
            (\<lambda>m. isNoun V m \<or> hasTagOneOf m [''ETN'', ''XSN''])
            (\<lambda>m. hasTagOneOf m [''XSV'', ''XSA'', ''XSM'']) ms"
proof -
  from assms obtain m0 m1 where ms: "ms = [m0, m1]" "m_tag m0 = ''NNG''" "m_tag m1 = ''XSV''"
    by (rule two_tags)
  have "findLastIndex ms (\<lambda>m. hasTagOneOf m [''XSV'', ''XSA'', ''XSM'']) = 1"
    using ms by (simp add: findLastIndex_def hasTagOneOf_def pos_startsWith_def numeral_2_eq_2)
  moreover have "findIndex ms (\<lambda>m. isNoun V m \<or> hasTagOneOf m [''ETN'', ''XSN'']) \<le> 1"
    using ms by (simp add: findIndex_def)
  ultimately show ?thesis
    by (simp flip: qualifies_iff)
qed

lemma NNG_XSV_verb:
  assumes "map m_tag ms = [''NNG'', ''XSV'']"
  shows "first_inclusion_after_last_exclusion
            (\<lambda>m. isPredicate V m \<or> pos_equals (m_tag m) ''XSV'')
            (\<lambda>m. hasTagOneOf m [''ETN'', ''ETM'', ''XSN'', ''XSA'', ''XSM'']) ms"
proof -
  from assms obtain m0 m1 where ms: "ms = [m0, m1]" "m_tag m0 = ''NNG''" "m_tag m1 = ''XSV''"
    by (rule two_tags)
  have "findLastIndex ms (\<lambda>m. hasTagOneOf m [''ETN'', ''ETM'', ''XSN'', ''XSA'', ''XSM'']) = - 1"
    using ms by (simp add: findLastIndex_def hasTagOneOf_def pos_startsWith_def numeral_2_eq_2)
  moreover have "0 \<le> findIndex ms (\<lambda>m. isPredicate V m \<or> pos_equals (m_tag m) ''XSV'')"
    using ms by (simp add: findIndex_def pos_equals_def)
  ultimately show ?thesis
    by (simp flip: qualifies_iff)
qed


text \<open>
  C3. Each of the queries \<^verbatim>\<open>nouns\<close>, \<^verbatim>\<open>verbs\<close> and \<^verbatim>\<open>modifiers\<close> returns, in
  the order of the sentence, exactly the words for which a first morpheme passing the
  query's inclusion test exists and lies strictly after every morpheme passing its
  exclusion test. In particular a word of the sentence whose morphemes are tagged
  \<^verbatim>\<open>[NNG, XSV]\<close> is not among the nouns and is among the verbs, whatever the category
  rules of the vocabulary are.
\<close>

theorem C3_lexical_queries:
  "nouns V h s =
     filter (\<lambda>w. first_inclusion_after_last_exclusion
                   (\<lambda>m. isNoun V m \<or> hasTagOneOf m [''ETN'', ''XSN''])
                   (\<lambda>m. hasTagOneOf m [''XSV'', ''XSA'', ''XSM''])
                   (Word_morphemes h w)) (s_items s)
   \<and> verbs V h s =
     filter (\<lambda>w. first_inclusion_after_last_exclusion
                   (\<lambda>m. isPredicate V m \<or> pos_equals (m_tag m) ''XSV'')
                   (\<lambda>m. hasTagOneOf m [''ETN'', ''ETM'', ''XSN'', ''XSA'', ''XSM''])
                   (Word_morphemes h w)) (s_items s)
   \<and> modifiers V h s =
     filter (\<lambda>w. first_inclusion_after_last_exclusion
                   (\<lambda>m. isPredicate V m \<or> hasTagOneOf m [''ETM'', ''XSA'', ''XSM''])
                   (\<lambda>m. hasTagOneOf m [''ETN'', ''XSN'', ''XSV''])
                   (Word_morphemes h w)) (s_items s)
   \<and> (\<forall>w \<in> set (s_items s).
        map m_tag (Word_morphemes h w) = [''NNG'', ''XSV''] \<longrightarrow>
        w \<notin> set (nouns V h s) \<and> w \<in> set (verbs V h s))"
proof -
  have n: "nouns V h s =
     filter (\<lambda>w. first_inclusion_after_last_exclusion
                   (\<lambda>m. isNoun V m \<or> hasTagOneOf m [''ETN'', ''XSN''])
                   (\<lambda>m. hasTagOneOf m [''XSV'', ''XSA'', ''XSM''])
                   (Word_morphemes h w)) (s_items s)"
    by (simp add: nouns_def lexical_loop_filter)
  have v: "verbs V h s =
     filter (\<lambda>w. first_inclusion_after_last_exclusion
                   (\<lambda>m. isPredicate V m \<or> pos_equals (m_tag m) ''XSV'')
                   (\<lambda>m. hasTagOneOf m [''ETN'', ''ETM'', ''XSN'', ''XSA'', ''XSM''])
                   (Word_morphemes h w)) (s_items s)"
    by (simp add: verbs_def lexical_loop_filter)
  have m: "modifiers V h s =
     filter (\<lambda>w. first_inclusion_after_last_exclusion
                   (\<lambda>m. isPredicate V m \<or> hasTagOneOf m [''ETM'', ''XSA'', ''XSM''])
                   (\<lambda>m. hasTagOneOf m [''ETN'', ''XSN'', ''XSV''])
                   (Word_morphemes h w)) (s_items s)"
    by (simp add: modifiers_def lexical_loop_filter)
  have p: "\<forall>w \<in> set (s_items s).
        map m_tag (Word_morphemes h w) = [''NNG'', ''XSV''] \<longrightarrow>
        w \<notin> set (nouns V h s) \<and> w \<in> set (verbs V h s)"
    unfolding n v using NNG_XSV_not_noun NNG_XSV_verb by simp
  from n v m p show ?thesis by (intro conjI)
qed


lemma one_sentence_value:
  "one_sentence = Return 0
     \<lparr>morphemes =
        [\<lparr>m_surface = ''gongbu'', m_tag = ''NNG'', m_originalTag = Undefined,
          m_id = Val 0, m_word = Val 0, m_entities = []\<rparr>,
         \<lparr>m_surface = ''ha'', m_tag = ''XSV'', m_originalTag = Undefined,
          m_id = Val 1, m_word = Val 0, m_entities = []\<rparr>],
      words =
        [\<lparr>w_items = [0, 1], w_surface = Val ''gongbuha'', w_id = Val 0, w_phrase = Undefined,
          w_governorEdge = Undefined, w_dependentEdges = [], w_argumentRoles = [],
          w_predicateRoles = []\<rparr>],
      entities = [], corefGroups = [], edges = [],
      sentences = [\<lparr>s_items = [0], s_syntaxTree = Undefined, s_entities = []\<rparr>]\<rparr>"
  by (simp add: scenario_defs)

theorem C3_lexical_queries_witness:
  "0 \<in> set (s_items (sentences (heap_of one_sentence) ! 0)) \<and>
   map m_tag (Word_morphemes (heap_of one_sentence) 0) = [''NNG'', ''XSV''] \<and>
   0 \<notin> set (nouns example_vocabulary (heap_of one_sentence) (sentences (heap_of one_sentence) ! 0)) \<and>
   0 \<in> set (verbs example_vocabulary (heap_of one_sentence) (sentences (heap_of one_sentence) ! 0))"
proof -
  let ?h = "heap_of one_sentence"
  have tags: "map m_tag (Word_morphemes ?h 0) = [''NNG'', ''XSV'']"
    by (simp add: Word_morphemes_def one_sentence_value)
  have items: "0 \<in> set (s_items (sentences ?h ! 0))"
    by (simp add: one_sentence_value)
  note all = C3_lexical_queries [of example_vocabulary ?h "sentences ?h ! 0",
      THEN conjunct2, THEN conjunct2, THEN conjunct2]
  from bspec [OF all items] tags
  have "0 \<notin> set (nouns example_vocabulary ?h (sentences ?h ! 0)) \<and>
        0 \<in> set (verbs example_vocabulary ?h (sentences ?h ! 0))"
    by (rule mp)
  with tags items show ?thesis by (intro conjI) simp_all
qed

subsection \<open>One-time-write slots\<close>

lemma writeonlyonce_set_Inr: "writeonlyonce_set c v n = Inr x \<Longrightarrow> x = n"
  by (auto simp: writeonlyonce_set_def split: option.splits)

lemma writeonlyonce_set_fresh: "\<not> isDefined v \<Longrightarrow> writeonlyonce_set c v n = Inr n"
  by (cases c) (auto simp: writeonlyonce_set_def)

lemma writeonlyonce_set_Logging: "writeonlyonce_set Logging v n = Inr n"
  by (cases "isDefined v") (auto simp: writeonlyonce_set_def)

lemma writeonlyonce_set_Throwing:
  "isDefined v \<Longrightarrow> writeonlyonce_set Throwing v n = Inl AssertionError"
  by (auto simp: writeonlyonce_set_def)

text \<open>
  The setters of the one-time-write fields held in the store, on each console: where
  the assertion raises, a slot holding a defined value is left as it is; where it only
  prints, every assignment goes through.
\<close>

lemma one_time_setters_Throwing:
  "(r < length (morphemes h) \<and> isDefined (m_id (morphemes h ! r)) \<longrightarrow>
      set_m_id Throwing r n h = Raise AssertionError h) \<and>
   (r < length (morphemes h) \<and> isDefined (m_word (morphemes h ! r)) \<longrightarrow>
      set_m_word Throwing r v h = Raise AssertionError h) \<and>
   (r < length (words h) \<and> isDefined (w_id (words h ! r)) \<longrightarrow>
      set_w_id Throwing r n h = Raise AssertionError h) \<and>
   (r < length (words h) \<and> isDefined (w_phrase (words h ! r)) \<longrightarrow>
      set_w_phrase Throwing r v h = Raise AssertionError h) \<and>
   (r < length (words h) \<and> isDefined (w_governorEdge (words h ! r)) \<longrightarrow>
      set_w_governorEdge Throwing r v h = Raise AssertionError h) \<and>
   (r < length (entities h) \<and> isDefined (en_corefGroup (entities h ! r)) \<longrightarrow>
      set_en_corefGroup Throwing r v h = Raise AssertionError h) \<and>
   (r < length (sentences h) \<and> isDefined (s_syntaxTree (sentences h ! r)) \<longrightarrow>
      set_s_syntaxTree Throwing r v h = Raise AssertionError h)"
  by (simp add: set_m_id_def set_m_word_def set_w_id_def set_w_phrase_def
        set_w_governorEdge_def set_en_corefGroup_def set_s_syntaxTree_def
        writeonlyonce_set_Throwing)

lemma one_time_setters_Logging:
  "(r < length (morphemes h) \<longrightarrow>
      set_m_id Logging r n h =
        Return () (h\<lparr>morphemes := (morphemes h)[r := (morphemes h ! r)\<lparr>m_id := n\<rparr>]\<rparr>) \<and>
      set_m_word Logging r v h =
        Return () (h\<lparr>morphemes := (morphemes h)[r := (morphemes h ! r)\<lparr>m_word := v\<rparr>]\<rparr>)) \<and>
   (r < length (words h) \<longrightarrow>
      set_w_id Logging r n h =
        Return () (h\<lparr>words := (words h)[r := (words h ! r)\<lparr>w_id := n\<rparr>]\<rparr>) \<and>
      set_w_phrase Logging r v h =
        Return () (h\<lparr>words := (words h)[r := (words h ! r)\<lparr>w_phrase := v\<rparr>]\<rparr>) \<and>
      set_w_governorEdge Logging r v h =
        Return () (h\<lparr>words := (words h)[r := (words h ! r)\<lparr>w_governorEdge := v\<rparr>]\<rparr>)) \<and>
   (r < length (entities h) \<longrightarrow>
      set_en_corefGroup Logging r v h =
        Return () (h\<lparr>entities := (entities h)[r := (entities h ! r)\<lparr>en_corefGroup := v\<rparr>]\<rparr>)) \<and>
   (r < length (sentences h) \<longrightarrow>
      set_s_syntaxTree Logging r v h =
        Return () (h\<lparr>sentences := (sentences h)[r := (sentences h ! r)\<lparr>s_syntaxTree := v\<rparr>]\<rparr>))"
  by (simp add: set_m_id_def set_m_word_def set_w_id_def set_w_phrase_def
        set_w_governorEdge_def set_en_corefGroup_def set_s_syntaxTree_def
        writeonlyonce_set_Logging)

text \<open>
  C1. A one-time-write field that holds a defined value rejects a second assignment and
  keeps its value; a word is built and its \<^verbatim>\<open>phrase\<close> assigned twice with different
  values. Evaluated on both consoles: where \<^verbatim>\<open>console.assert\<close> only prints, both
  assignments return and the field ends up holding the second value; where it raises,
  the second assignment raises and the field keeps the first value.
\<close>

theorem C1_phrase_twice:
  "returns (set_w_phrase Logging 0 (Val 7) (heap_of (one_word Logging))) \<and>
   returns (phrase_twice Logging) \<and>
   w_phrase (words (heap_of (phrase_twice Logging)) ! 0) = Val 8 \<and>
   raised (phrase_twice Throwing) = Some AssertionError \<and>
   w_phrase (words (heap_of (phrase_twice Throwing)) ! 0) = Val 7"
  by (simp add: phrase_twice_def set_w_phrase_def scenario_defs)

subsection \<open>Positions assigned by the constructors\<close>

lemma set_m_word_Return:
  "set_m_word c r v h = Return u h' \<Longrightarrow>
   r < length (morphemes h) \<and>
   h' = h\<lparr>morphemes := (morphemes h)[r := (morphemes h ! r)\<lparr>m_word := v\<rparr>]\<rparr>"
  by (auto simp: set_m_word_def split: if_splits sum.splits dest: writeonlyonce_set_Inr)

lemma set_m_id_Return:
  "set_m_id c r v h = Return u h' \<Longrightarrow>
   r < length (morphemes h) \<and>
   h' = h\<lparr>morphemes := (morphemes h)[r := (morphemes h ! r)\<lparr>m_id := v\<rparr>]\<rparr>"
  by (auto simp: set_m_id_def split: if_splits sum.splits dest: writeonlyonce_set_Inr)

lemma set_w_id_Return:
  "set_w_id c r v h = Return u h' \<Longrightarrow>
   r < length (words h) \<and>
   h' = h\<lparr>words := (words h)[r := (words h ! r)\<lparr>w_id := v\<rparr>]\<rparr>"
  by (auto simp: set_w_id_def split: if_splits sum.splits dest: writeonlyonce_set_Inr)

lemma Word_link_Cons_Return:
  assumes "Word_link c this i (m # ms) h = Return w h'"
  shows "m < length (morphemes h) \<and> Word_link c this (Suc i) ms (linked this i m h) = Return w h'"
proof -
  from assms obtain u1 h1 where s1: "set_m_word c m (Val this) h = Return u1 h1"
    by (auto split: result.splits)
  with assms obtain u2 h2 where s2: "set_m_id c m (Val i) h1 = Return u2 h2"
    by (auto split: result.splits)
  from s1 s2 assms have r: "Word_link c this (Suc i) ms h2 = Return w h'" by simp
  from set_m_word_Return [OF s1] set_m_id_Return [OF s2]
  have "m < length (morphemes h)" and "h2 = linked this i m h"
    by (simp_all add: linked_def)
  with r show ?thesis by simp
qed

lemma Word_link_frame:
  "Word_link c this i ms h = Return w h' \<Longrightarrow>
   w = this \<and> words h' = words h \<and> length (morphemes h') = length (morphemes h) \<and>
   (\<forall>m \<in> set ms. m < length (morphemes h)) \<and>
   (\<forall>r. r \<notin> set ms \<longrightarrow> morphemes h' ! r = morphemes h ! r)"
proof (induction ms arbitrary: i h)
  case Nil then show ?case by simp
next
  case (Cons m ms)
  from Word_link_Cons_Return [OF Cons.prems]
  have m: "m < length (morphemes h)"
    and r: "Word_link c this (Suc i) ms (linked this i m h) = Return w h'" by simp_all
  from Cons.IH [OF r] m show ?case by (auto simp: linked_def)
qed

lemma Word_link_ids:
  "Word_link c this i ms h = Return w h' \<Longrightarrow> distinct ms \<Longrightarrow> k < length ms \<Longrightarrow>
   m_id (morphemes h' ! (ms ! k)) = Val (i + k) \<and> m_word (morphemes h' ! (ms ! k)) = Val this"
proof (induction ms arbitrary: i h k)
  case Nil then show ?case by simp
next
  case (Cons m ms)
  from Word_link_Cons_Return [OF Cons.prems(1)]
  have m: "m < length (morphemes h)"
    and r: "Word_link c this (Suc i) ms (linked this i m h) = Return w h'" by simp_all
  show ?case
  proof (cases k)
    case 0
    from Cons.prems(2) have "m \<notin> set ms" by simp
    with Word_link_frame [OF r] have "morphemes h' ! m = morphemes (linked this i m h) ! m" by simp
    with m 0 show ?thesis by (simp add: linked_def)
  next
    case (Suc k')
    with Cons.prems have "distinct ms" "k' < length ms" by simp_all
    from Cons.IH [OF r this] Suc show ?thesis by simp
  qed
qed

lemma Word_new_Return:
  assumes "Word_new c surface (Val ms) h = Return w h'"
  shows "w = length (words h) \<and>
         Word_link c (length (words h)) 0 ms
           (h\<lparr>words := words h @
               [\<lparr>w_items = ms, w_surface = surface, w_id = Undefined,
                 w_phrase = Undefined, w_governorEdge = Undefined,
                 w_dependentEdges = [], w_argumentRoles = [],
                 w_predicateRoles = []\<rparr>]\<rparr>) = Return w h'"
proof -
  let ?h0 = "h\<lparr>words := words h @
               [\<lparr>w_items = ms, w_surface = surface, w_id = Undefined,
                 w_phrase = Undefined, w_governorEdge = Undefined,
                 w_dependentEdges = [], w_argumentRoles = [],
                 w_predicateRoles = []\<rparr>]\<rparr>"
  from assms have r: "Word_link c (length (words h)) 0 ms ?h0 = Return w h'"
    by (simp add: Word_new_def split: option.splits)
  with Word_link_frame [OF r] show ?thesis by simp
qed

lemma Word_new_links:
  assumes "Word_new c surface (Val ms) h = Return w h'" and "distinct ms"
  shows "w_items (words h' ! w) = ms \<and>
         (\<forall>k < length ms. m_id (morphemes h' ! (ms ! k)) = Val k \<and>
                          m_word (morphemes h' ! (ms ! k)) = Val w)"
proof -
  let ?h0 = "h\<lparr>words := words h @
               [\<lparr>w_items = ms, w_surface = surface, w_id = Undefined,
                 w_phrase = Undefined, w_governorEdge = Undefined,
                 w_dependentEdges = [], w_argumentRoles = [],
                 w_predicateRoles = []\<rparr>]\<rparr>"
  from Word_new_Return [OF assms(1)] have w: "w = length (words h)"
    and r: "Word_link c (length (words h)) 0 ms ?h0 = Return w h'" by simp_all
  from Word_link_frame [OF r] w have "w_items (words h' ! w) = ms" by simp
  moreover have "\<forall>k < length ms. m_id (morphemes h' ! (ms ! k)) = Val k \<and>
                          m_word (morphemes h' ! (ms ! k)) = Val w"
    using Word_link_ids [OF r assms(2)] w by simp
  ultimately show ?thesis by simp
qed

text \<open>The same for the loop of the \<^verbatim>\<open>Sentence\<close> constructor.\<close>

lemma Sentence_link_Cons_Return:
  assumes "Sentence_link c this i (x # xs) h = Return s h'"
  shows "x < length (words h) \<and>
         Sentence_link c this (Suc i) xs
           (h\<lparr>words := (words h)[x := (words h ! x)\<lparr>w_id := Val i\<rparr>]\<rparr>) = Return s h'"
proof -
  from assms obtain u1 h1 where s1: "set_w_id c x (Val i) h = Return u1 h1"
    by (auto split: result.splits)
  with assms have r: "Sentence_link c this (Suc i) xs h1 = Return s h'" by simp
  from set_w_id_Return [OF s1] r show ?thesis by simp
qed

lemma Sentence_link_frame:
  "Sentence_link c this i xs h = Return s h' \<Longrightarrow>
   s = this \<and> sentences h' = sentences h \<and> length (words h') = length (words h) \<and>
   (\<forall>x \<in> set xs. x < length (words h)) \<and>
   (\<forall>r. r \<notin> set xs \<longrightarrow> words h' ! r = words h ! r)"
proof (induction xs arbitrary: i h)
  case Nil then show ?case by simp
next
  case (Cons x xs)
  from Sentence_link_Cons_Return [OF Cons.prems]
  have x: "x < length (words h)"
    and r: "Sentence_link c this (Suc i) xs
           (h\<lparr>words := (words h)[x := (words h ! x)\<lparr>w_id := Val i\<rparr>]\<rparr>) = Return s h'"
    by simp_all
  from Cons.IH [OF r] x show ?case by auto
qed

lemma Sentence_link_ids:
  "Sentence_link c this i xs h = Return s h' \<Longrightarrow> distinct xs \<Longrightarrow> k < length xs \<Longrightarrow>
   w_id (words h' ! (xs ! k)) = Val (i + k)"
proof (induction xs arbitrary: i h k)
  case Nil then show ?case by simp
next
  case (Cons x xs)
  from Sentence_link_Cons_Return [OF Cons.prems(1)]
  have x: "x < length (words h)"
    and r: "Sentence_link c this (Suc i) xs
           (h\<lparr>words := (words h)[x := (words h ! x)\<lparr>w_id := Val i\<rparr>]\<rparr>) = Return s h'"
    by simp_all
  show ?case
  proof (cases k)
    case 0
    from Cons.prems(2) have "x \<notin> set xs" by simp
    with Sentence_link_frame [OF r] x 0 show ?thesis by simp
  next
    case (Suc k')
    with Cons.prems have "distinct xs" "k' < length xs" by simp_all
    from Cons.IH [OF r this] Suc show ?thesis by simp
  qed
qed

lemma Sentence_new_ids:
  assumes "Sentence_new c (Val ws) h = Return s h'" and "distinct ws"
  shows "s_items (sentences h' ! s) = ws \<and>
         (\<forall>k < length ws. w_id (words h' ! (ws ! k)) = Val k)"
proof -
  let ?h0 = "h\<lparr>sentences := sentences h @
                     [\<lparr>s_items = ws, s_syntaxTree = Undefined, s_entities = []\<rparr>]\<rparr>"
  from assms(1) have r: "Sentence_link c (length (sentences h)) 0 ws ?h0 = Return s h'"
    by (simp add: Sentence_new_def split: option.splits)
  from Sentence_link_frame [OF r] have "s_items (sentences h' ! s) = ws" by simp
  moreover from Sentence_link_ids [OF r assms(2)]
  have "\<forall>k < length ws. w_id (words h' ! (ws ! k)) = Val k" by simp
  ultimately show ?thesis by simp
qed


text \<open>
  On a console whose assert raises, an object that occurs twice in the list stops the
  constructor at its second occurrence, so a constructor that returns was given a list
  without repetition.
\<close>

lemma set_m_word_Throwing_defined:
  "isDefined (m_word (morphemes h ! m)) \<Longrightarrow> \<not> returns (set_m_word Throwing m v h)"
  by (simp add: set_m_word_def writeonlyonce_set_Throwing)

lemma Word_link_Throwing_owned:
  "m \<in> set ms \<Longrightarrow> isDefined (m_word (morphemes h ! m)) \<Longrightarrow>
   \<not> returns (Word_link Throwing this i ms h)"
proof (induction ms arbitrary: i h)
  case Nil then show ?case by simp
next
  case (Cons x xs)
  show ?case
  proof
    assume "returns (Word_link Throwing this i (x # xs) h)"
    then obtain w h' where r: "Word_link Throwing this i (x # xs) h = Return w h'"
      by (cases "Word_link Throwing this i (x # xs) h") auto
    from Word_link_Cons_Return [OF r]
    have x: "x < length (morphemes h)"
      and r': "Word_link Throwing this (Suc i) xs (linked this i x h) = Return w h'" by simp_all
    have "x \<noteq> m"
    proof
      assume "x = m"
      with Cons.prems(2) set_m_word_Throwing_defined [of h x "Val this"] r
      show False by (auto split: result.splits)
    qed
    with Cons.prems have "m \<in> set xs"
      and "isDefined (m_word (morphemes (linked this i x h) ! m))"
      by (simp_all add: linked_def)
    from Cons.IH [OF this, of "Suc i"] r' show False by simp
  qed
qed

lemma Word_link_Throwing_distinct:
  "Word_link Throwing this i ms h = Return w h' \<Longrightarrow> distinct ms"
proof (induction ms arbitrary: i h)
  case Nil then show ?case by simp
next
  case (Cons x xs)
  from Word_link_Cons_Return [OF Cons.prems]
  have x: "x < length (morphemes h)"
    and r: "Word_link Throwing this (Suc i) xs (linked this i x h) = Return w h'" by simp_all
  have "x \<notin> set xs"
  proof
    assume "x \<in> set xs"
    moreover have "isDefined (m_word (morphemes (linked this i x h) ! x))"
      using x by (simp add: linked_def)
    ultimately have "\<not> returns (Word_link Throwing this (Suc i) xs (linked this i x h))"
      by (rule Word_link_Throwing_owned)
    with r show False by simp
  qed
  with Cons.IH [OF r] show ?case by simp
qed

lemma Word_new_Throwing_distinct:
  "Word_new Throwing surface (Val ms) h = Return w h' \<Longrightarrow> distinct ms"
  using Word_new_Return Word_link_Throwing_distinct by blast

lemma set_w_id_Throwing_defined:
  "isDefined (w_id (words h ! x)) \<Longrightarrow> \<not> returns (set_w_id Throwing x v h)"
  by (simp add: set_w_id_def writeonlyonce_set_Throwing)

lemma Sentence_link_Throwing_numbered:
  "x \<in> set xs \<Longrightarrow> isDefined (w_id (words h ! x)) \<Longrightarrow>
   \<not> returns (Sentence_link Throwing this i xs h)"
proof (induction xs arbitrary: i h)
  case Nil then show ?case by simp
next
  case (Cons y ys)
  show ?case
  proof
    assume "returns (Sentence_link Throwing this i (y # ys) h)"
    then obtain s h' where r: "Sentence_link Throwing this i (y # ys) h = Return s h'"
      by (cases "Sentence_link Throwing this i (y # ys) h") auto
    from Sentence_link_Cons_Return [OF r]
    have y: "y < length (words h)"
      and r': "Sentence_link Throwing this (Suc i) ys
           (h\<lparr>words := (words h)[y := (words h ! y)\<lparr>w_id := Val i\<rparr>]\<rparr>) = Return s h'"
      by simp_all
    have "y \<noteq> x"
    proof
      assume "y = x"
      with Cons.prems(2) set_w_id_Throwing_defined [of h y "Val i"] r
      show False by (auto split: result.splits)
    qed
    with Cons.prems have "x \<in> set ys"
      and "isDefined (w_id (words (h\<lparr>words := (words h)[y := (words h ! y)\<lparr>w_id := Val i\<rparr>]\<rparr>) ! x))"
      by simp_all
    from Cons.IH [OF this, of "Suc i"] r' show False by simp
  qed
qed

lemma Sentence_link_Throwing_distinct:
  "Sentence_link Throwing this i xs h = Return s h' \<Longrightarrow> distinct xs"
proof (induction xs arbitrary: i h)
  case Nil then show ?case by simp
next
  case (Cons y ys)
  from Sentence_link_Cons_Return [OF Cons.prems]
  have y: "y < length (words h)"
    and r: "Sentence_link Throwing this (Suc i) ys
           (h\<lparr>words := (words h)[y := (words h ! y)\<lparr>w_id := Val i\<rparr>]\<rparr>) = Return s h'"
    by simp_all
  have "y \<notin> set ys"
  proof
    assume "y \<in> set ys"
    moreover have "isDefined (w_id (words (h\<lparr>words := (words h)[y := (words h ! y)\<lparr>w_id := Val i\<rparr>]\<rparr>) ! y))"
      using y by simp
    ultimately have "\<not> returns (Sentence_link Throwing this (Suc i) ys
           (h\<lparr>words := (words h)[y := (words h ! y)\<lparr>w_id := Val i\<rparr>]\<rparr>))"
      by (rule Sentence_link_Throwing_numbered)
    with r show False by simp
  qed
  with Cons.IH [OF r] show ?case by simp
qed

lemma Sentence_new_Throwing_distinct:
  assumes "Sentence_new Throwing (Val ws) h = Return s h'"
  shows "distinct ws"
proof -
  from assms have "Sentence_link Throwing (length (sentences h)) 0 ws
      (h\<lparr>sentences := sentences h @
           [\<lparr>s_items = ws, s_syntaxTree = Undefined, s_entities = []\<rparr>]\<rparr>) = Return s h'"
    by (simp add: Sentence_new_def split: option.splits)
  then show ?thesis by (rule Sentence_link_Throwing_distinct)
qed

text \<open>
  Positions are indices, for every list without repetition and, on a console that
  raises, for every list.
\<close>

lemma constructed_positions:
  "(Word_new c surface (Val ms) h = Return w h' \<and> (c = Throwing \<or> distinct ms) \<longrightarrow>
      w_items (words h' ! w) = ms \<and>
      (\<forall>k < length ms. m_id (morphemes h' ! (ms ! k)) = Val k \<and>
                       m_word (morphemes h' ! (ms ! k)) = Val w)) \<and>
   (Sentence_new c (Val ws) h = Return s h'' \<and> (c = Throwing \<or> distinct ws) \<longrightarrow>
      s_items (sentences h'' ! s) = ws \<and>
      (\<forall>k < length ws. w_id (words h'' ! (ws ! k)) = Val k))"
  using Word_new_links Word_new_Throwing_distinct Sentence_new_ids Sentence_new_Throwing_distinct
  by blast

text \<open>
  C6. After a word is built every morpheme's \<^verbatim>\<open>id\<close> is its position and its
  \<^verbatim>\<open>word\<close> is the word, and after a sentence is built every word's \<^verbatim>\<open>id\<close> is its
  position. Evaluated for a list that holds the same object twice: where
  \<^verbatim>\<open>console.assert\<close> only prints, the word is built and the morpheme at position 0
  has \<^verbatim>\<open>id\<close> 1, and likewise the word at position 0 of the sentence; where it raises,
  neither is built. (\<open>constructed_positions\<close> above: the statement holds of every list
  without repetition, and of every list on a console that raises.)
\<close>

theorem C6_repeated_object:
  "doubled_word Logging = Return 0 (heap_of (doubled_word Logging)) \<and>
   w_items (words (heap_of (doubled_word Logging)) ! 0) = [0, 0] \<and>
   m_id (morphemes (heap_of (doubled_word Logging)) ! ([0, 0] ! 0)) = Val 1 \<and>
   doubled_sentence Logging = Return 0 (heap_of (doubled_sentence Logging)) \<and>
   s_items (sentences (heap_of (doubled_sentence Logging)) ! 0) = [0, 0] \<and>
   w_id (words (heap_of (doubled_sentence Logging)) ! ([0, 0] ! 0)) = Val 1 \<and>
   raised (doubled_word Throwing) = Some AssertionError \<and>
   raised (doubled_sentence Throwing) = Some AssertionError"
  by (simp add: doubled_word_def doubled_sentence_def scenario_defs)

subsection \<open>Required fields of the constructors\<close>

lemma DAGEdge_init_Throwing:
  "\<not> isDefined dest \<Longrightarrow> DAGEdge_init Throwing cls src dest lbl h = Raise AssertionError h"
  by (simp add: DAGEdge_init_def)

lemma DepEdge_new_Throwing:
  "\<not> isDefined dependent \<Longrightarrow>
   DepEdge_new Throwing governor dependent type depType originalLabel h = Raise AssertionError h"
  by (cases "isDefined type") (simp_all add: DepEdge_new_def DAGEdge_init_Throwing)

lemma RoleEdge_new_Throwing:
  "\<not> isDefined predicate \<or> \<not> isDefined lbl \<or> \<not> isDefined argument \<Longrightarrow>
   RoleEdge_new Throwing predicate argument lbl mods originalLabel h = Raise AssertionError h"
  by (cases "isDefined predicate \<and> isDefined lbl")
     (auto simp: RoleEdge_new_def DAGEdge_init_Throwing)

lemma Word_new_Throwing:
  "\<not> isDefined surface \<or> \<not> isDefined morphs \<or> morphs = Val [] \<Longrightarrow>
   Word_new Throwing surface morphs h = Raise AssertionError h"
  by (cases morphs) (auto simp: Word_new_def)

lemma Entity_new_Throwing:
  "\<not> isDefined surface \<or> \<not> isDefined lbl \<or> \<not> isDefined fineLabel \<or> \<not> isDefined morphs \<Longrightarrow>
   Entity_new Throwing surface lbl fineLabel morphs originalLabel h = Raise AssertionError h"
  by (auto simp: Entity_new_def)

lemma required_fields_Throwing:
  "(\<not> isDefined dest \<longrightarrow>
      DAGEdge_new Throwing src dest lbl h = Raise AssertionError h \<and>
      DepEdge_new Throwing src dest type lbl originalLabel h = Raise AssertionError h \<and>
      RoleEdge_new Throwing src dest lbl mods originalLabel h = Raise AssertionError h) \<and>
   (\<not> isDefined src \<or> \<not> isDefined lbl \<longrightarrow>
      RoleEdge_new Throwing src dest lbl mods originalLabel h = Raise AssertionError h) \<and>
   (\<not> isDefined surface \<or> \<not> isDefined morphs \<or> morphs = Val [] \<longrightarrow>
      Word_new Throwing surface morphs h = Raise AssertionError h) \<and>
   (\<not> isDefined surface \<or> \<not> isDefined lbl \<or> \<not> isDefined fineLabel \<or> \<not> isDefined items \<longrightarrow>
      Entity_new Throwing surface lbl fineLabel items originalLabel h = Raise AssertionError h)"
  using DAGEdge_init_Throwing [of dest DAGEdgeC src lbl h]
    DepEdge_new_Throwing [of dest src type lbl originalLabel h]
    RoleEdge_new_Throwing [of src lbl dest mods originalLabel h]
    Word_new_Throwing [of surface morphs h]
    Entity_new_Throwing [of surface lbl fineLabel items originalLabel h]
  unfolding DAGEdge_new_def by blast

lemma missing_array_any_console:
  "\<not> isDefined morphs \<Longrightarrow> \<not> returns (Word_new c surface morphs h)"
  "\<not> isDefined items \<Longrightarrow> \<not> returns (Entity_new c surface lbl fineLabel items originalLabel h)"
  by (cases c; cases morphs; simp add: Word_new_def)
     (cases c; cases items; simp add: Entity_new_def)

text \<open>
  C4. Building an edge without a destination, a word without a surface or with an empty
  list of morphemes, an entity without a surface, label or fine label, or a role edge
  without predicate or label fails at once. Evaluated where \<^verbatim>\<open>console.assert\<close> only
  prints: each of these constructor calls returns an object. Where it raises, the calls
  raise (\<open>required_fields_Throwing\<close> above); a missing list of morphemes stops the
  constructor of a word and of an entity on either console
  (\<open>missing_array_any_console\<close>).
\<close>

theorem C4_missing_fields_Logging:
  "returns (DAGEdge_new Logging (Val 0) Undefined (Val ''SBJ'') (heap_of (one_word Logging))) \<and>
   returns (DepEdge_new Logging (Val 0) Undefined (Val ''NP'') (Val ''SBJ'') Undefined
              (heap_of (one_word Logging))) \<and>
   returns (RoleEdge_new Logging Undefined (Val 0) Undefined (Val []) Undefined
              (heap_of (one_word Logging))) \<and>
   returns (Word_new Logging Undefined (Val [0, 1]) two_morphemes) \<and>
   returns (Word_new Logging (Val ''gongbuha'') (Val []) two_morphemes) \<and>
   returns (Entity_new Logging Undefined Undefined Undefined (Val [Val 0]) Undefined
              (heap_of (one_word Logging))) \<and>
   raised (DAGEdge_new Throwing (Val 0) Undefined (Val ''SBJ'') (heap_of (one_word Throwing)))
     = Some AssertionError \<and>
   raised (Word_new Throwing (Val ''gongbuha'') (Val []) two_morphemes) = Some AssertionError"
  by (simp add: DAGEdge_new_def DAGEdge_init_def DepEdge_new_def RoleEdge_new_def push_edge_def
        Entity_new_def scenario_defs)

subsection \<open>Mutating operations on the immutable array\<close>

lemma overridden_rejected:
  "ImmutableArray_call (CopyWithin target start stop) xs = (Some Error, xs) \<and>
   ImmutableArray_call Pop xs = (Some Error, xs) \<and>
   ImmutableArray_call (Push items) xs = (Some Error, xs) \<and>
   ImmutableArray_call Sort xs = (Some Error, xs) \<and>
   ImmutableArray_call (Fill v) xs = (Some Error, xs)"
  by simp

text \<open>
  C5. Every operation that would change the contents of the sequence is rejected with an
  error and leaves the contents as they were. Evaluated on the word of two morphemes:
  \<^verbatim>\<open>reverse()\<close>, \<^verbatim>\<open>shift()\<close> and \<^verbatim>\<open>unshift(m)\<close> raise nothing and reorder,
  remove and insert. (The five overridden operations are rejected:
  \<open>overridden_rejected\<close> above.)
\<close>

theorem C5_inherited_mutators:
  "ImmutableArray_call Reverse (w_items (words (heap_of (one_word Logging)) ! 0)) = (None, [1, 0]) \<and>
   ImmutableArray_call Shift (w_items (words (heap_of (one_word Logging)) ! 0)) = (None, [1]) \<and>
   ImmutableArray_call (Unshift [1]) (w_items (words (heap_of (one_word Logging)) ! 0))
     = (None, [1, 0, 1])"
  by (simp add: scenario_defs)

subsection \<open>Equality across subtypes\<close>

lemma three_edges_value:
  "edges three_edges =
     [\<lparr>e_class = DAGEdgeC, e_src = Val 1, e_dest = Val 0, e_label = Val ''SBJ'',
       e_type = Undefined, e_modifiers = Undefined, e_originalLabel = Undefined\<rparr>,
      \<lparr>e_class = DepEdgeC, e_src = Val 1, e_dest = Val 0, e_label = Val ''SBJ'',
       e_type = Val ''NP'', e_modifiers = Undefined, e_originalLabel = Undefined\<rparr>,
      \<lparr>e_class = RoleEdgeC, e_src = Val 1, e_dest = Val 0, e_label = Val ''SBJ'',
       e_type = Undefined, e_modifiers = Val [], e_originalLabel = Undefined\<rparr>]"
  by (simp add: three_edges_def DAGEdge_new_def DAGEdge_init_def DepEdge_new_def RoleEdge_new_def
        push_edge_def set_w_governorEdge_def scenario_defs)

lemma Word_equals_same:
  "Word_equals eq h w (Val (WordRef w))"
  by (simp add: Word_equals_def ImmutableArray_equals_def isEqual_def)

text \<open>
  C7. \<^verbatim>\<open>equals\<close> holds only between values of the same concrete subtype, for
  sequences and for edges. Evaluated: an empty sentence equals an empty coreference
  group; a \<^verbatim>\<open>DAGEdge\<close> and a \<^verbatim>\<open>RoleEdge\<close> each equal the \<^verbatim>\<open>DepEdge\<close> with the
  same label, source and destination, while that \<^verbatim>\<open>DepEdge\<close> does not equal the
  \<^verbatim>\<open>RoleEdge\<close>. \<^verbatim>\<open>typeof\<close> is \<^verbatim>\<open>'object'\<close> on both sides of each comparison.
\<close>

theorem C7_subtype_not_compared:
  "ImmutableArray_equals only_identical empty_sentence_and_group (SentenceRef 0) (Val (CorefGroupRef 0)) \<and>
   edge_equals only_identical three_edges 0 (Val (EdgeRef 1)) = Inr True \<and>
   edge_equals only_identical three_edges 2 (Val (EdgeRef 1)) = Inr True \<and>
   edge_equals only_identical three_edges 1 (Val (EdgeRef 2)) = Inr False"
proof -
  have "ImmutableArray_equals only_identical empty_sentence_and_group (SentenceRef 0)
          (Val (CorefGroupRef 0))"
    by (simp add: ImmutableArray_equals_def isEqual_def empty_sentence_and_group_def
          CoreferenceGroup_new_def scenario_defs)
  moreover have "edge_equals only_identical three_edges 0 (Val (EdgeRef 1)) = Inr True"
    by (simp add: edge_equals_def DAGEdge_equals_def three_edges_value Word_equals_same)
  moreover have "edge_equals only_identical three_edges 2 (Val (EdgeRef 1)) = Inr True"
    by (simp add: edge_equals_def DAGEdge_equals_def three_edges_value Word_equals_same)
  moreover have "edge_equals only_identical three_edges 1 (Val (EdgeRef 2)) = Inr False"
    by (simp add: edge_equals_def DepEdge_equals_def three_edges_value)
  ultimately show ?thesis by simp
qed

subsection \<open>Members of a reconstructed coreference group\<close>

lemma Entity_equals_foreign: "Entity_equals eq h enty (Val (JavaRef r)) = Inr False"
  by (simp add: Entity_equals_def ImmutableArray_equals_def isEqual_def)

lemma Array_find_none: "(\<And>x. \<not> p x) \<Longrightarrow> Array_find p xs = Undefined"
  by (induction xs) auto

lemma getMorph_error: "getMorph h this jm = Inl e \<Longrightarrow> e = TypeError"
  by (auto simp: getMorph_def Let_def split: jsval.splits if_splits)

lemma getMorphs_error: "getMorphs h this xs = Inl e \<Longrightarrow> e = TypeError"
  by (induction xs arbitrary: e) (auto split: sum.splits dest: getMorph_error)

lemma Entity_link_error: "Entity_link this ms h = Raise e h' \<Longrightarrow> e = TypeError"
  by (induction this ms h rule: Entity_link.induct) (auto split: if_splits)

lemma getEntity_error: "getEntity c this e h = Raise err h' \<Longrightarrow> err = TypeError"
  by (auto simp: getEntity_def Entity_new_def split: sum.splits
        dest: getMorphs_error Entity_link_error)

lemma getCorefGroup_members_outcome:
  "(\<exists>h'. getCorefGroup_members c eq this jc h = Raise TypeError h') \<or>
   (\<exists>h'. getCorefGroup_members c eq this jc h = Return (replicate (length jc) Undefined) h')"
proof (induction jc arbitrary: h)
  case Nil show ?case by simp
next
  case (Cons e es)
  show ?case
  proof (cases "getEntity c this e h")
    case (Raise err h1)
    with getEntity_error [OF Raise] show ?thesis by simp
  next
    case (Return referenced h1)
    have found: "Array_find
                 (\<lambda>enty. Entity_equals eq h1 enty (Val (JavaRef (je_ref e))) = Inr True)
                 (s_entities (sentences h1 ! this)) = Undefined"
      by (rule Array_find_none) (simp add: Entity_equals_foreign)
    from Cons.IH [of h1] show ?thesis
      using Return found by (auto simp: Let_def)
  qed
qed

lemma getCorefGroup_raises:
  assumes "jc \<noteq> []"
  shows "raised (getCorefGroup c eq this jc h) = Some TypeError"
proof -
  from assms obtain n where n: "length jc = Suc n" by (cases jc) auto
  from getCorefGroup_members_outcome [of c eq this jc h] show ?thesis
  proof (elim disjE exE)
    fix h' assume "getCorefGroup_members c eq this jc h = Raise TypeError h'"
    then show ?thesis by (simp add: getCorefGroup_def)
  next
    fix h' assume "getCorefGroup_members c eq this jc h =
        Return (replicate (length jc) Undefined) h'"
    then show ?thesis using n
      by (simp add: getCorefGroup_def CoreferenceGroup_new_def)
  qed
qed

lemma entity_sentence_value:
  "entity_sentence =
     \<lparr>morphemes =
        [\<lparr>m_surface = ''a'', m_tag = ''NNG'', m_originalTag = Undefined,
          m_id = Val 0, m_word = Val 0, m_entities = [0]\<rparr>,
         \<lparr>m_surface = ''b'', m_tag = ''NNG'', m_originalTag = Undefined,
          m_id = Val 0, m_word = Val 1, m_entities = []\<rparr>,
         \<lparr>m_surface = ''c'', m_tag = ''NNG'', m_originalTag = Undefined,
          m_id = Val 0, m_word = Val 2, m_entities = []\<rparr>],
      words =
        [\<lparr>w_items = [0], w_surface = Val ''a'', w_id = Val 0, w_phrase = Undefined,
          w_governorEdge = Undefined, w_dependentEdges = [], w_argumentRoles = [],
          w_predicateRoles = []\<rparr>,
         \<lparr>w_items = [1], w_surface = Val ''b'', w_id = Val 1, w_phrase = Undefined,
          w_governorEdge = Undefined, w_dependentEdges = [], w_argumentRoles = [],
          w_predicateRoles = []\<rparr>,
         \<lparr>w_items = [2], w_surface = Val ''c'', w_id = Val 2, w_phrase = Undefined,
          w_governorEdge = Undefined, w_dependentEdges = [], w_argumentRoles = [],
          w_predicateRoles = []\<rparr>],
      entities =
        [\<lparr>en_items = [Val 0], en_surface = Val ''a'', en_label = Val ''PS'',
          en_fineLabel = Val ''PS_NAME'', en_originalLabel = Undefined,
          en_corefGroup = Undefined\<rparr>],
      corefGroups = [], edges = [],
      sentences = [\<lparr>s_items = [0, 1, 2], s_syntaxTree = Undefined, s_entities = [0]\<rparr>]\<rparr>"
  by (simp add: entity_sentence_def Entity_new_def set_s_entities_def
        replaceableifempty_set_def scenario_defs)

text \<open>
  C8. Each member of a translated coreference group is the entity of the sentence's
  list that equals the native translation of the foreign member. Evaluated on a
  sentence whose list holds entity 0 and a foreign group whose member translates to
  entity 1, which equals entity 0: the lookup compares with the foreign object itself,
  finds nothing, and the constructor of the group raises a \<^verbatim>\<open>TypeError\<close> on the
  \<^verbatim>\<open>undefined\<close> member, on either console. (Every foreign group that has a member
  ends so: \<open>getCorefGroup_raises\<close> above.)
\<close>

theorem C8_foreign_member_not_resolved:
  "getEntity Logging 0 (hd foreign_group) entity_sentence
     = Return 1 (heap_of (getEntity Logging 0 (hd foreign_group) entity_sentence)) \<and>
   Entity_equals only_identical
       (heap_of (getEntity Logging 0 (hd foreign_group) entity_sentence)) 0 (Val (EntityRef 1))
     = Inr True \<and>
   s_entities (sentences entity_sentence ! 0) = [0] \<and>
   raised (getCorefGroup Logging only_identical 0 foreign_group entity_sentence) = Some TypeError \<and>
   raised (getCorefGroup Throwing only_identical 0 foreign_group entity_sentence) = Some TypeError"
proof -
  have e: "getEntity Logging 0 (hd foreign_group) entity_sentence
     = Return 1 (heap_of (getEntity Logging 0 (hd foreign_group) entity_sentence))"
    by (simp add: foreign_group_def getEntity_def getMorph_def Entity_new_def
          getOrUndefined_def entity_sentence_value)
  have q: "Entity_equals only_identical
       (heap_of (getEntity Logging 0 (hd foreign_group) entity_sentence)) 0 (Val (EntityRef 1))
     = Inr True"
    by (simp add: foreign_group_def getEntity_def getMorph_def Entity_new_def
          getOrUndefined_def entity_sentence_value Entity_equals_def ImmutableArray_equals_def
          isEqual_def)
  have s: "s_entities (sentences entity_sentence ! 0) = [0]"
    by (simp add: entity_sentence_value)
  have "foreign_group \<noteq> []" by (simp add: foreign_group_def)
  from getCorefGroup_raises [OF this] e q s show ?thesis by simp
qed

subsection \<open>Equality of entities\<close>



























subsection \<open>Equality of an edge without a source\<close>

lemma DAGEdge_equals_rootless:
  assumes "\<not> isDefined (e_src (edges h ! this))"
  shows "DAGEdge_equals eq h this other =
     (case other of
        Undefined \<Rightarrow> Inr False
      | Null \<Rightarrow> Inl TypeError
      | Val b \<Rightarrow> if e_label (edges h ! this) = get__label h b then Inl TypeError else Inr False)"
  using assms
  by (cases other; cases "e_src (edges h ! this)") (simp_all add: DAGEdge_equals_def)

text \<open>
  C10, as amended. \<^verbatim>\<open>equals\<close> reads \<^verbatim>\<open>this.src\<close> only after the comparisons to
  its left have passed. For an edge whose source is absent, \<^verbatim>\<open>DAGEdge.equals\<close>
  returns false when the other operand is \<^verbatim>\<open>undefined\<close> or an object with a
  different \<^verbatim>\<open>_label\<close>, and raises when it is \<^verbatim>\<open>null\<close> or an object with the
  same \<^verbatim>\<open>_label\<close>; \<^verbatim>\<open>DepEdge.equals\<close> raises on \<^verbatim>\<open>undefined\<close> and
  \<^verbatim>\<open>null\<close>, returns false for an object with a different \<^verbatim>\<open>_type\<close> or
  \<^verbatim>\<open>_label\<close>, and raises for an object that agrees in both.
\<close>

theorem C10_source_absent:
  "\<not> isDefined (e_src (edges h ! this)) \<longrightarrow>
     DAGEdge_equals eq h this other =
       (case other of
          Undefined \<Rightarrow> Inr False
        | Null \<Rightarrow> Inl TypeError
        | Val b \<Rightarrow> if e_label (edges h ! this) = get__label h b then Inl TypeError else Inr False) \<and>
     DepEdge_equals eq h this other =
       (case other of
          Val b \<Rightarrow> if e_type (edges h ! this) = get__type h b \<and>
                      e_label (edges h ! this) = get__label h b
                   then Inl TypeError else Inr False
        | _ \<Rightarrow> Inl TypeError)"
  by (cases other) (simp_all add: DAGEdge_equals_rootless DepEdge_equals_def)

lemma root_edges_value:
  "edges root_edges =
     [\<lparr>e_class = DepEdgeC, e_src = Undefined, e_dest = Val 1, e_label = Val ''ROOT'',
       e_type = Val ''VP'', e_modifiers = Undefined, e_originalLabel = Undefined\<rparr>,
      \<lparr>e_class = DAGEdgeC, e_src = Undefined, e_dest = Val 1, e_label = Val ''ROOT'',
       e_type = Undefined, e_modifiers = Undefined, e_originalLabel = Undefined\<rparr>,
      \<lparr>e_class = DAGEdgeC, e_src = Val 1, e_dest = Val 0, e_label = Val ''SBJ'',
       e_type = Undefined, e_modifiers = Undefined, e_originalLabel = Undefined\<rparr>]"
  by (simp add: root_edges_def DAGEdge_new_def DAGEdge_init_def DepEdge_new_def
        push_edge_def set_w_governorEdge_def scenario_defs)

theorem C10_source_absent_witness:
  "\<not> isDefined (e_src (edges root_edges ! 1)) \<and>
   edge_equals only_identical root_edges 1 (Val (EdgeRef 1)) = Inl TypeError \<and>
   edge_equals only_identical root_edges 1 (Val (EdgeRef 2)) = Inr False \<and>
   edge_equals only_identical root_edges 1 Undefined = Inr False"
proof -
  have src: "\<not> isDefined (e_src (edges root_edges ! 1))"
    by (simp add: root_edges_value)
  have cls: "e_class (edges root_edges ! 1) = DAGEdgeC"
    by (simp add: root_edges_value)
  note general = C10_source_absent [THEN mp, OF src, THEN conjunct1, of only_identical]
  have "DAGEdge_equals only_identical root_edges 1 (Val (EdgeRef 1)) = Inl TypeError"
    using general [of "Val (EdgeRef 1)"] by (simp add: root_edges_value)
  moreover have "DAGEdge_equals only_identical root_edges 1 (Val (EdgeRef 2)) = Inr False"
    using general [of "Val (EdgeRef 2)"] by (simp add: root_edges_value)
  moreover have "DAGEdge_equals only_identical root_edges 1 Undefined = Inr False"
    using general [of Undefined] by simp
  ultimately show ?thesis using src cls by (simp add: edge_equals_def)
qed

text \<open>
  C10 as stated fails: edges without a source whose \<^verbatim>\<open>equals\<close> returns
  \<^verbatim>\<open>false\<close>.
\<close>

theorem C10_returns_false:
  "e_src (edges root_edges ! 0) = Undefined \<and>
   e_src (edges root_edges ! 1) = Undefined \<and>
   edge_equals only_identical root_edges 0 (Val (EdgeRef 2)) = Inr False \<and>
   edge_equals only_identical root_edges 1 (Val (EdgeRef 2)) = Inr False \<and>
   edge_equals only_identical root_edges 1 Undefined = Inr False"
  by (simp add: edge_equals_def DepEdge_equals_def DAGEdge_equals_def root_edges_value)

end
